theory Spec2Isabelle
  imports Main "HOL-Library.AList" "HOL-Library.Option_ord"
begin

section \<open>The persistent store (engine)\<close>

text \<open>
  The engine keeps everything in SQLite tables.  A table with a primary key is modelled as
  an association list from the key to the remaining columns, in row order: a lookup is
  \<open>map_of\<close>, an upsert is \<open>AList.update\<close> (replace the row in place, or add it at the
  end).  Only the tables that the configuration, module and debug code touches are modelled.

  Every call into the database driver may fail (closed handle, busy database, I/O error).
  The field \<open>faults\<close> lists the outcome of the driver calls still to come: \<open>Some msg\<close>
  makes the next call fail with that message, \<open>None\<close> (or an exhausted list) lets it
  run.  SQLite's \<open>strftime('%s','now')\<close> reads the field \<open>clock\<close>.

  SQLite's INTEGER columns and Go's \<open>int\<close> and \<open>int64\<close> hold 64 bits.  Versions, priorities
  and times are modelled as unbounded integers: the code only compares them and adds one
  to a version, which starts at 1.
\<close>

datatype error =
    StoreError string
  | HandlerError string
  | Wrapped string error

datatype panic = NilPointerDereference | NilMapAssignment

datatype 'a outcome = Returns 'a | Panics panic

record config_row =
  c_value :: string
  c_type :: string
  c_description :: "string option"
  c_updated_at :: int
  c_version :: int

record module_row =
  r_name :: string
  r_version :: "string option"
  r_enabled :: "int option"
  r_priority :: "int option"
  r_hooks :: "string option"
  r_config :: "string option"
  r_schema_sql :: "string option"
  r_created_at :: int
  r_updated_at :: int

record hook_row =
  k_module_id :: string
  k_event :: string
  k_handler :: string
  k_priority :: "int option"
  k_enabled :: "int option"
  k_config :: "string option"

text \<open>
  A message built by \<open>fmt.Sprintf\<close> is kept as its format and arguments, not as the
  rendered text.
\<close>

datatype message =
    NoMessage
  | HookFailed string error
  | HookExecuted string
  | AssertionFailed string string

record pattern_row =
  p_pattern_type :: string
  p_input_pattern :: string
  p_metadata :: message
  p_created_at :: int

text \<open>
  A watcher is a callback registered with \<open>OnChange\<close>: the module manager's own (which
  reloads the registry) or any other, told apart by a number.
\<close>

datatype watcher = ReloadModules | Callback nat

record Engine =
  config :: "(string \<times> config_row) list"
  modules_tbl :: "(string \<times> module_row) list"
  module_hooks :: "(string \<times> hook_row) list"
  learning_patterns :: "(nat \<times> pattern_row) list"
  faults :: "string option list"
  clock :: int
  watchers :: "watcher list"
  configVersion :: int
  reloadCh :: nat
  spawned :: "(watcher \<times> string) list"

definition driver_call :: "Engine \<Rightarrow> error option \<times> Engine" where
  "driver_call e =
     (case faults e of
        [] \<Rightarrow> (None, e)
      | f # fs \<Rightarrow> (map_option StoreError f, e\<lparr>faults := fs\<rparr>))"

subsection \<open>The config table\<close>

text \<open>
  The trigger \<open>config_version_bump\<close> runs after every UPDATE of a config row and adds one
  to the version of the row with the new key.  SQLite does not run a trigger again for the
  UPDATE inside its own body (recursive triggers are off, and the connection string does
  not turn them on).
\<close>

definition config_version_bump :: "int \<Rightarrow> string \<Rightarrow> (string \<times> config_row) list \<Rightarrow> (string \<times> config_row) list" where
  "config_version_bump now k t =
     (case map_of t k of
        None \<Rightarrow> t
      | Some r \<Rightarrow> AList.update k (r\<lparr>c_version := c_version r + 1, c_updated_at := now\<rparr>) t)"

text \<open>
  The statement of \<open>SetConfig\<close>: insert \<open>(key, value, updated_at)\<close> with the column
  defaults (type \<open>string\<close>, version 1); on a conflict on the key, UPDATE the row with the new
  value, the time and \<open>version = version + 1\<close>, which then fires the trigger.
\<close>

definition config_upsert :: "int \<Rightarrow> string \<Rightarrow> string \<Rightarrow> (string \<times> config_row) list \<Rightarrow> (string \<times> config_row) list" where
  "config_upsert now k v t =
     (case map_of t k of
        None \<Rightarrow>
          AList.update k \<lparr>c_value = v, c_type = ''string'', c_description = None,
                          c_updated_at = now, c_version = 1\<rparr> t
      | Some r \<Rightarrow>
          config_version_bump now k
            (AList.update k (r\<lparr>c_value := v, c_updated_at := now, c_version := c_version r + 1\<rparr>) t))"

definition SetConfig :: "Engine \<Rightarrow> string \<Rightarrow> string \<Rightarrow> error option \<times> Engine" where
  "SetConfig e key val =
     (case driver_call e of
        (Some err, e') \<Rightarrow> (Some err, e')
      | (None, e') \<Rightarrow> (None, e'\<lparr>config := config_upsert (clock e') key val (config e')\<rparr>))"

text \<open>
  \<open>GetConfig\<close> scans the one selected column; \<open>sql.ErrNoRows\<close> is turned into the empty
  string with a nil error, any other failure is returned with the empty string.
\<close>

definition GetConfig :: "Engine \<Rightarrow> string \<Rightarrow> (string \<times> error option) \<times> Engine" where
  "GetConfig e key =
     (case driver_call e of
        (Some err, e') \<Rightarrow> (('''', Some err), e')
      | (None, e') \<Rightarrow>
          (case map_of (config e') key of
             None \<Rightarrow> (('''', None), e')
           | Some r \<Rightarrow> ((c_value r, None), e')))"


subsection \<open>Scanning an integer\<close>








subsection \<open>The change notifier\<close>

text \<open>
  \<open>OnChange\<close> appends a callback.  \<open>notifyWatchers\<close> starts one goroutine per registered
  callback (\<open>go fn(event)\<close>); the model records each start in \<open>spawned\<close> and does not run
  the callback.  \<open>reloadCh\<close> is a channel with a buffer of one: the model keeps the number
  of signals waiting in it.
\<close>

definition OnChange :: "Engine \<Rightarrow> watcher \<Rightarrow> Engine" where
  "OnChange e fn = e\<lparr>watchers := watchers e @ [fn]\<rparr>"

definition notifyWatchers :: "Engine \<Rightarrow> string \<Rightarrow> Engine" where
  "notifyWatchers e event = e\<lparr>spawned := spawned e @ map (\<lambda>fn. (fn, event)) (watchers e)\<rparr>"

text \<open>\<open>SELECT COALESCE(MAX(version), 0) FROM config\<close>.\<close>

definition MaxVersion :: "(string \<times> config_row) list \<Rightarrow> int" where
  "MaxVersion t =
     (case t of
        [] \<Rightarrow> 0
      | kr # rest \<Rightarrow> fold (\<lambda>kr m. max m (c_version (snd kr))) rest (c_version (snd kr)))"

text \<open>
  The non-blocking send \<open>select { case e.reloadCh <- struct{}{}: default: }\<close>: the signal is
  stored when the buffer has room and dropped otherwise.
\<close>

definition reloadCh_offer :: "Engine \<Rightarrow> Engine" where
  "reloadCh_offer e = (if reloadCh e < 1 then e\<lparr>reloadCh := reloadCh e + 1\<rparr> else e)"

text \<open>The body of the \<open>ticker.C\<close> case of \<open>watchConfig\<close>: one polling tick.\<close>

definition watchConfig_tick :: "Engine \<Rightarrow> Engine" where
  "watchConfig_tick e =
     (case driver_call e of
        (Some err, e') \<Rightarrow> e'
      | (None, e') \<Rightarrow>
          (let maxVersion = MaxVersion (config e') in
           if maxVersion > configVersion e'
           then reloadCh_offer (notifyWatchers (e'\<lparr>configVersion := maxVersion\<rparr>) ''config_changed'')
           else e'))"

text \<open>
  The loop of \<open>watchConfig\<close> selects between cancellation and the ticker.  It is run here
  on the sequence of what happens while it is alive: a tick, the cancellation of the
  context, or a \<open>SetConfig\<close> of another goroutine committed between two ticks.  The result
  says whether the loop is still running.
\<close>

datatype happening = Tick | Cancelled | DoSet string string

fun watchConfig :: "happening list \<Rightarrow> Engine \<Rightarrow> bool \<times> Engine" where
  "watchConfig [] e = (True, e)"
| "watchConfig (Cancelled # hs) e = (False, e)"
| "watchConfig (Tick # hs) e = watchConfig hs (watchConfig_tick e)"
| "watchConfig (DoSet k v # hs) e = watchConfig hs (snd (SetConfig e k v))"

section \<open>The module manager\<close>

text \<open>
  A \<open>Config\<close> map is represented by its JSON text, so \<open>json.Marshal\<close> and
  \<open>json.Unmarshal\<close> keep it as it is.  A UUID is the number of the draw that produced it
  (\<open>uuid_cnt\<close> counts the draws of \<open>uuid.New()\<close>).  Wall-clock readings are not modelled:
  the fields \<open>Timestamp\<close>, \<open>StartTime\<close> and \<open>Duration\<close> are left out of the records.
\<close>

record Hook =
  h_ID :: string
  h_ModuleID :: string
  h_Event :: string
  h_Handler :: string
  h_Priority :: int
  h_Enabled :: bool
  h_Config :: string

record Module =
  m_ID :: string
  m_Name :: string
  m_Version :: string
  m_Enabled :: bool
  m_Priority :: int
  m_Config :: string
  m_SchemaSQL :: string
  m_Hooks :: "Hook list"

text \<open>
  A payload is a Go map from strings to values of any type; \<open>None\<close> is the nil map, which
  can be read but not written.  \<open>JDebugContext\<close> stands for the pointer to the debug
  context of the call.
\<close>

datatype jvalue = JString string | JBool bool | JNumber int | JDebugContext | JOther

type_synonym payload = "(string \<rightharpoonup> jvalue) option"

record DebugEvent =
  d_ID :: nat
  d_TraceID :: nat
  d_Level :: string
  d_Event :: string
  d_Module :: string
  d_Message :: message
  d_Data :: payload

record DebugAssertion =
  a_ID :: nat
  a_TraceID :: nat
  a_Name :: string
  a_Expected :: string
  a_Actual :: string
  a_Passed :: bool
  a_Message :: message

record DebugContext =
  t_TraceID :: nat
  t_ParentID :: string
  t_Events :: "DebugEvent list"
  t_Assertions :: "DebugAssertion list"

record HookContext =
  x_Event :: string
  x_Payload :: payload
  x_Session :: string
  x_Debug :: "DebugContext option"

record ModuleManager =
  engine :: Engine
  modules :: "string \<rightharpoonup> Module"
  hooks :: "string \<rightharpoonup> Hook list"
  debugEnabled :: bool
  debugLog :: "DebugEvent list"
  uuid_cnt :: nat

subsection \<open>The debug ring\<close>

definition EnableDebug :: "ModuleManager \<Rightarrow> ModuleManager" where
  "EnableDebug mm = mm\<lparr>debugEnabled := True\<rparr>"

definition DisableDebug :: "ModuleManager \<Rightarrow> ModuleManager" where
  "DisableDebug mm = mm\<lparr>debugEnabled := False\<rparr>"

definition GetDebugLog :: "ModuleManager \<Rightarrow> DebugEvent list" where
  "GetDebugLog mm = debugLog mm"

definition ClearDebugLog :: "ModuleManager \<Rightarrow> ModuleManager" where
  "ClearDebugLog mm = mm\<lparr>debugLog := []\<rparr>"

text \<open>
  The INSERT of \<open>logDebug\<close> into \<open>learning_patterns\<close>: it fails when the driver call
  fails or when the pattern id is already there (primary key); \<open>logDebug\<close> ignores both.
\<close>

definition insert_pattern :: "Engine \<Rightarrow> nat \<Rightarrow> pattern_row \<Rightarrow> Engine" where
  "insert_pattern e pid row =
     (case driver_call e of
        (Some err, e') \<Rightarrow> e'
      | (None, e') \<Rightarrow>
          (case map_of (learning_patterns e') pid of
             Some _ \<Rightarrow> e'
           | None \<Rightarrow> e'\<lparr>learning_patterns := learning_patterns e' @ [(pid, row)]\<rparr>))"

definition logDebug :: "ModuleManager \<Rightarrow> DebugEvent \<Rightarrow> ModuleManager" where
  "logDebug mm event =
     (if \<not> debugEnabled mm then mm
      else
        (let kept = (if length (debugLog mm) \<ge> 1000 then tl (debugLog mm) else debugLog mm);
             e' = insert_pattern (engine mm) (d_ID event)
                    \<lparr>p_pattern_type = ''debug_event'', p_input_pattern = d_Event event,
                     p_metadata = d_Message event, p_created_at = clock (engine mm)\<rparr>
         in mm\<lparr>debugLog := kept @ [event], engine := e'\<rparr>))"

subsection \<open>The built-in handlers\<close>

text \<open>
  A handler gets the hook context and the UUID counter, and returns the context as it
  left it, the counter and its error, or panics.
\<close>

type_synonym HookHandler = "HookContext \<Rightarrow> nat \<Rightarrow> (HookContext \<times> nat \<times> error option) outcome"

definition payload_get :: "payload \<Rightarrow> string \<Rightarrow> jvalue option" where
  "payload_get p k = (case p of None \<Rightarrow> None | Some m \<Rightarrow> m k)"

definition payload_set :: "payload \<Rightarrow> string \<Rightarrow> jvalue \<Rightarrow> payload outcome" where
  "payload_set p k v = (case p of None \<Rightarrow> Panics NilMapAssignment | Some m \<Rightarrow> Returns (Some (m(k \<mapsto> v))))"

text \<open>The type assertions \<open>v, _ := x.(string)\<close> and \<open>v, _ := x.(bool)\<close>.\<close>

definition as_string :: "jvalue option \<Rightarrow> string" where
  "as_string v = (case v of Some (JString s) \<Rightarrow> s | _ \<Rightarrow> [])"

definition as_bool :: "jvalue option \<Rightarrow> bool" where
  "as_bool v = (case v of Some (JBool b) \<Rightarrow> b | _ \<Rightarrow> False)"

text \<open>\<open>handleLog\<close> prints the event and its payload, and changes nothing.\<close>

definition handleLog :: HookHandler where
  "handleLog ctx n = Returns (ctx, n, None)"

definition handleDebug :: HookHandler where
  "handleDebug ctx n =
     (case x_Debug ctx of
        None \<Rightarrow> Returns (ctx, n, None)
      | Some dbg \<Rightarrow>
          (let event = \<lparr>d_ID = n, d_TraceID = t_TraceID dbg, d_Level = ''debug'',
                        d_Event = x_Event ctx, d_Module = [], d_Message = NoMessage,
                        d_Data = x_Payload ctx\<rparr>
           in Returns (ctx\<lparr>x_Debug := Some (dbg\<lparr>t_Events := t_Events dbg @ [event]\<rparr>)\<rparr>, n + 1, None)))"

definition handleLLMAnalyze :: HookHandler where
  "handleLLMAnalyze ctx n =
     (case x_Debug ctx of
        None \<Rightarrow> Returns (ctx, n, None)
      | Some dbg \<Rightarrow>
          (case payload_set (x_Payload ctx) ''_llm_analysis_requested'' (JBool True) of
             Panics p \<Rightarrow> Panics p
           | Returns p1 \<Rightarrow>
               (case payload_set p1 ''_debug_context'' JDebugContext of
                  Panics p \<Rightarrow> Panics p
                | Returns p2 \<Rightarrow> Returns (ctx\<lparr>x_Payload := p2\<rparr>, n, None))))"

definition handleTestAssert :: HookHandler where
  "handleTestAssert ctx n =
     (case x_Debug ctx of
        None \<Rightarrow> Returns (ctx, n, None)
      | Some dbg \<Rightarrow>
          (let name = as_string (payload_get (x_Payload ctx) ''assertion_name'');
               expected = as_string (payload_get (x_Payload ctx) ''expected'');
               actual = as_string (payload_get (x_Payload ctx) ''actual'');
               assertion = \<lparr>a_ID = n, a_TraceID = t_TraceID dbg, a_Name = name,
                            a_Expected = expected, a_Actual = actual,
                            a_Passed = (expected = actual),
                            a_Message = (if expected = actual then NoMessage
                                         else AssertionFailed expected actual)\<rparr>
           in Returns (ctx\<lparr>x_Debug := Some (dbg\<lparr>t_Assertions := t_Assertions dbg @ [assertion]\<rparr>)\<rparr>,
                       n + 1, None)))"

definition handleAutoFix :: HookHandler where
  "handleAutoFix ctx n =
     (case payload_get (x_Payload ctx) ''error'' of
        Some (JString errMsg) \<Rightarrow>
          (case payload_set (x_Payload ctx) ''_auto_fix_requested'' (JBool True) of
             Panics p \<Rightarrow> Panics p
           | Returns p1 \<Rightarrow>
               (case payload_set p1 ''_error_to_fix'' (JString errMsg) of
                  Panics p \<Rightarrow> Panics p
                | Returns p2 \<Rightarrow> Returns (ctx\<lparr>x_Payload := p2\<rparr>, n, None)))
      | _ \<Rightarrow> Returns (ctx, n, None))"

text \<open>
  \<open>handlePatternLearn\<close> reads four payload entries and returns nil on every path without
  writing anything.
\<close>

definition handlePatternLearn :: HookHandler where
  "handlePatternLearn ctx n =
     (let patternType = as_string (payload_get (x_Payload ctx) ''pattern_type'');
          input = as_string (payload_get (x_Payload ctx) ''input'');
          output = as_string (payload_get (x_Payload ctx) ''output'');
          success = as_bool (payload_get (x_Payload ctx) ''success'')
      in if patternType = [] \<or> input = [] then Returns (ctx, n, None)
         else Returns (ctx, n, None))"

definition builtinHandlers :: "string \<rightharpoonup> HookHandler" where
  "builtinHandlers =
     [''log'' \<mapsto> handleLog,
      ''debug'' \<mapsto> handleDebug,
      ''llm_analyze'' \<mapsto> handleLLMAnalyze,
      ''test_assert'' \<mapsto> handleTestAssert,
      ''auto_fix'' \<mapsto> handleAutoFix,
      ''pattern_learn'' \<mapsto> handlePatternLearn]"

subsection \<open>Loading the registry\<close>

text \<open>
  The two queries of \<open>reload\<close> select the rows with \<open>enabled = 1\<close> in ascending
  priority.  SQL leaves the order of rows of equal priority open; the model takes them in
  row order.  A NULL priority sorts first.
\<close>

definition query_modules :: "(string \<times> module_row) list \<Rightarrow> (string \<times> module_row) list" where
  "query_modules t = sort_key (\<lambda>kr. r_priority (snd kr)) (filter (\<lambda>kr. r_enabled (snd kr) = Some 1) t)"

definition query_hooks :: "(string \<times> hook_row) list \<Rightarrow> (string \<times> hook_row) list" where
  "query_hooks t = sort_key (\<lambda>kr. k_priority (snd kr)) (filter (\<lambda>kr. k_enabled (snd kr) = Some 1) t)"

text \<open>
  \<open>rows.Scan\<close> fails on a NULL in a column that is read into a Go \<open>string\<close>, \<open>int\<close> or
  \<open>bool\<close>, and on an integer other than 0 and 1 read into a \<open>bool\<close>; \<open>schema_sql\<close> is read
  into a \<open>sql.NullString\<close>.  The loops of \<open>reload\<close> skip a row whose scan fails.
\<close>

definition scan_bool :: "int option \<Rightarrow> bool option" where
  "scan_bool v = (case v of None \<Rightarrow> None | Some i \<Rightarrow> if i = 1 then Some True else if i = 0 then Some False else None)"

definition scan_module :: "string \<times> module_row \<Rightarrow> Module option" where
  "scan_module kr =
     (case (r_version (snd kr), scan_bool (r_enabled (snd kr)), r_priority (snd kr), r_config (snd kr)) of
        (Some v, Some en, Some p, Some c) \<Rightarrow>
          Some \<lparr>m_ID = fst kr, m_Name = r_name (snd kr), m_Version = v, m_Enabled = en,
                m_Priority = p, m_Config = c,
                m_SchemaSQL = (case r_schema_sql (snd kr) of None \<Rightarrow> [] | Some s \<Rightarrow> s),
                m_Hooks = []\<rparr>
      | _ \<Rightarrow> None)"

definition scan_hook :: "string \<times> hook_row \<Rightarrow> Hook option" where
  "scan_hook kr =
     (case (k_priority (snd kr), scan_bool (k_enabled (snd kr)), k_config (snd kr)) of
        (Some p, Some en, Some c) \<Rightarrow>
          Some \<lparr>h_ID = fst kr, h_ModuleID = k_module_id (snd kr), h_Event = k_event (snd kr),
                h_Handler = k_handler (snd kr), h_Priority = p, h_Enabled = en, h_Config = c\<rparr>
      | _ \<Rightarrow> None)"

fun load_modules :: "(string \<times> module_row) list \<Rightarrow> (string \<rightharpoonup> Module) \<Rightarrow> (string \<rightharpoonup> Module)" where
  "load_modules [] ms = ms"
| "load_modules (row # rows) ms =
     (case scan_module row of
        None \<Rightarrow> load_modules rows ms
      | Some m \<Rightarrow> load_modules rows (ms(m_ID m \<mapsto> m)))"

text \<open>Reading a Go map at a key it does not have gives the nil slice.\<close>

definition hooks_at :: "(string \<rightharpoonup> Hook list) \<Rightarrow> string \<Rightarrow> Hook list" where
  "hooks_at hs event = (case hs event of None \<Rightarrow> [] | Some l \<Rightarrow> l)"

fun load_hooks :: "(string \<times> hook_row) list \<Rightarrow> (string \<rightharpoonup> Hook list) \<Rightarrow> (string \<rightharpoonup> Hook list)" where
  "load_hooks [] hs = hs"
| "load_hooks (row # rows) hs =
     (case scan_hook row of
        None \<Rightarrow> load_hooks rows hs
      | Some h \<Rightarrow> load_hooks rows (hs(h_Event h \<mapsto> hooks_at hs (h_Event h) @ [h])))"

definition reload :: "ModuleManager \<Rightarrow> error option \<times> ModuleManager" where
  "reload mm =
     (let mm0 = mm\<lparr>modules := Map.empty, hooks := Map.empty\<rparr> in
      case driver_call (engine mm0) of
        (Some err, e1) \<Rightarrow> (Some err, mm0\<lparr>engine := e1\<rparr>)
      | (None, e1) \<Rightarrow>
          (let mm1 = mm0\<lparr>engine := e1,
                           modules := load_modules (query_modules (modules_tbl e1)) Map.empty\<rparr> in
           case driver_call e1 of
             (Some err, e2) \<Rightarrow> (Some err, mm1\<lparr>engine := e2\<rparr>)
           | (None, e2) \<Rightarrow>
               (None, mm1\<lparr>engine := e2,
                          hooks := load_hooks (query_hooks (module_hooks e2)) Map.empty\<rparr>)))"

text \<open>
  \<open>NewModuleManager\<close> starts with empty maps and debugging off, loads the registry (the
  error of \<open>reload\<close> is dropped) and registers its reloading callback with the engine.
  The second argument is the state of the UUID source.
\<close>

definition NewModuleManager :: "Engine \<Rightarrow> nat \<Rightarrow> ModuleManager" where
  "NewModuleManager e n =
     (let mm = snd (reload \<lparr>engine = e, modules = Map.empty, hooks = Map.empty,
                            debugEnabled = False, debugLog = [], uuid_cnt = n\<rparr>)
      in mm\<lparr>engine := OnChange (engine mm) ReloadModules\<rparr>)"

subsection \<open>Registering modules and hooks\<close>

text \<open>
  The upsert of \<open>RegisterModule\<close>: a new row takes the column defaults for \<open>hooks\<close> and the
  two times; on a conflict on \<open>module_id\<close> the seven listed columns are replaced.
\<close>

definition modules_upsert :: "int \<Rightarrow> Module \<Rightarrow> (string \<times> module_row) list \<Rightarrow> (string \<times> module_row) list" where
  "modules_upsert now m t =
     (case map_of t (m_ID m) of
        None \<Rightarrow>
          AList.update (m_ID m)
            \<lparr>r_name = m_Name m, r_version = Some (m_Version m),
             r_enabled = Some (if m_Enabled m then 1 else 0), r_priority = Some (m_Priority m),
             r_hooks = Some ''[]'', r_config = Some (m_Config m),
             r_schema_sql = Some (m_SchemaSQL m), r_created_at = now, r_updated_at = now\<rparr> t
      | Some r \<Rightarrow>
          AList.update (m_ID m)
            (r\<lparr>r_name := m_Name m, r_version := Some (m_Version m),
               r_enabled := Some (if m_Enabled m then 1 else 0), r_priority := Some (m_Priority m),
               r_config := Some (m_Config m), r_schema_sql := Some (m_SchemaSQL m),
               r_updated_at := now\<rparr>) t)"

text \<open>
  A module's schema script is arbitrary SQL.  What running it does to the store is the
  first argument of \<open>RegisterModule\<close>.  The error of the final \<open>reload\<close> is dropped.
\<close>

definition RegisterModule :: "(string \<Rightarrow> Engine \<Rightarrow> error option \<times> Engine) \<Rightarrow> ModuleManager \<Rightarrow> Module \<Rightarrow> error option \<times> ModuleManager" where
  "RegisterModule exec_script mm m =
     (case driver_call (engine mm) of
        (Some err, e1) \<Rightarrow> (Some err, mm\<lparr>engine := e1\<rparr>)
      | (None, e1) \<Rightarrow>
          (let e2 = e1\<lparr>modules_tbl := modules_upsert (clock e1) m (modules_tbl e1)\<rparr> in
           if m_SchemaSQL m \<noteq> [] then
             (case exec_script (m_SchemaSQL m) e2 of
                (Some err, e3) \<Rightarrow> (Some (Wrapped ''execute module schema'' err), mm\<lparr>engine := e3\<rparr>)
              | (None, e3) \<Rightarrow> (None, snd (reload (mm\<lparr>engine := e3\<rparr>))))
           else (None, snd (reload (mm\<lparr>engine := e2\<rparr>)))))"

text \<open>
  The text of a UUID is not empty and differs from draw to draw.  The upsert of
  \<open>RegisterHook\<close> adds a row only for a module that exists (foreign keys are on); on a
  conflict on \<open>hook_id\<close> it replaces five columns and keeps \<open>module_id\<close>.
\<close>

definition uuid_String :: "nat \<Rightarrow> string" where
  "uuid_String n = CHR ''u'' # replicate n (CHR ''.'')"

definition RegisterHook :: "ModuleManager \<Rightarrow> Hook \<Rightarrow> error option \<times> ModuleManager" where
  "RegisterHook mm h0 =
     (let (h, mm0) = (if h_ID h0 = [] then (h0\<lparr>h_ID := uuid_String (uuid_cnt mm)\<rparr>, mm\<lparr>uuid_cnt := uuid_cnt mm + 1\<rparr>)
                      else (h0, mm)) in
      case driver_call (engine mm0) of
        (Some err, e1) \<Rightarrow> (Some err, mm0\<lparr>engine := e1\<rparr>)
      | (None, e1) \<Rightarrow>
          (case map_of (module_hooks e1) (h_ID h) of
             Some r \<Rightarrow>
               (None, snd (reload (mm0\<lparr>engine := e1\<lparr>module_hooks :=
                  AList.update (h_ID h)
                    (r\<lparr>k_event := h_Event h, k_handler := h_Handler h,
                       k_priority := Some (h_Priority h),
                       k_enabled := Some (if h_Enabled h then 1 else 0),
                       k_config := Some (h_Config h)\<rparr>) (module_hooks e1)\<rparr>\<rparr>)))
           | None \<Rightarrow>
               (if map_of (modules_tbl e1) (h_ModuleID h) = None
                then (Some (StoreError ''FOREIGN KEY constraint failed''), mm0\<lparr>engine := e1\<rparr>)
                else (None, snd (reload (mm0\<lparr>engine := e1\<lparr>module_hooks :=
                  AList.update (h_ID h)
                    \<lparr>k_module_id = h_ModuleID h, k_event = h_Event h, k_handler = h_Handler h,
                     k_priority = Some (h_Priority h),
                     k_enabled = Some (if h_Enabled h then 1 else 0),
                     k_config = Some (h_Config h)\<rparr> (module_hooks e1)\<rparr>\<rparr>))))))"

subsection \<open>Dispatch\<close>

text \<open>
  The loop of \<open>Emit\<close> over the hooks of the event.  \<open>debugCtx\<close> is \<open>None\<close> for the nil
  pointer and otherwise the trace id of the context made at the start of the call (no
  handler assigns it).  Both branches after the handler build their \<open>DebugEvent\<close> before
  they call \<open>logDebug\<close>, and the event reads \<open>debugCtx.TraceID\<close>.  The package variable
  \<open>builtinHandlers\<close> is the first argument.
\<close>

fun run_hooks :: "(string \<rightharpoonup> HookHandler) \<Rightarrow> Hook list \<Rightarrow> string \<Rightarrow> nat option \<Rightarrow> HookContext \<Rightarrow> ModuleManager \<Rightarrow> (HookContext \<times> ModuleManager) outcome" where
  "run_hooks tbl [] event debugCtx ctx mm = Returns (ctx, mm)"
| "run_hooks tbl (hook # rest) event debugCtx ctx mm =
     (case tbl (h_Handler hook) of
        None \<Rightarrow> run_hooks tbl rest event debugCtx ctx mm
      | Some handler \<Rightarrow>
          (case handler ctx (uuid_cnt mm) of
             Panics p \<Rightarrow> Panics p
           | Returns (ctx', n, err) \<Rightarrow>
               (case debugCtx of
                  None \<Rightarrow> Panics NilPointerDereference
                | Some traceID \<Rightarrow>
                    run_hooks tbl rest event debugCtx ctx'
                      (logDebug (mm\<lparr>uuid_cnt := n + 1\<rparr>)
                         \<lparr>d_ID = n, d_TraceID = traceID,
                          d_Level = (case err of None \<Rightarrow> ''debug'' | Some _ \<Rightarrow> ''error''),
                          d_Event = event, d_Module = h_ModuleID hook,
                          d_Message = (case err of None \<Rightarrow> HookExecuted (h_Handler hook)
                                       | Some e \<Rightarrow> HookFailed (h_Handler hook) e),
                          d_Data = None\<rparr>))))"

text \<open>
  \<open>Emit\<close> returns its error, the payload as the handlers left it (the map is shared with
  the caller) and the manager, or panics.
\<close>

definition Emit :: "(string \<rightharpoonup> HookHandler) \<Rightarrow> ModuleManager \<Rightarrow> string \<Rightarrow> payload \<Rightarrow> (error option \<times> payload \<times> ModuleManager) outcome" where
  "Emit tbl mm event pl =
     (let hs = hooks_at (hooks mm) event in
      if length hs = 0 then Returns (None, pl, mm)
      else
        (let (debugCtx, mm1) =
               (if debugEnabled mm
                then (Some \<lparr>t_TraceID = uuid_cnt mm, t_ParentID = [], t_Events = [], t_Assertions = []\<rparr>,
                      mm\<lparr>uuid_cnt := uuid_cnt mm + 1\<rparr>)
                else (None, mm));
             ctx = \<lparr>x_Event = event, x_Payload = pl, x_Session = [], x_Debug = debugCtx\<rparr>
         in case run_hooks tbl hs event (map_option t_TraceID debugCtx) ctx mm1 of
              Panics p \<Rightarrow> Panics p
            | Returns (ctx', mm') \<Rightarrow> Returns (None, x_Payload ctx', mm')))"

section \<open>Start-up\<close>

text \<open>
  \<open>initSchema\<close> creates the tables and seeds the default rows with INSERT OR IGNORE, so a
  row whose key exists is left alone.  Of the seed data only the config rows are modelled.
\<close>

definition default_config :: "(string \<times> string \<times> string \<times> string) list" where
  "default_config =
     [(''default_provider'', ''cerebras'', ''string'', ''Default LLM provider''),
      (''auto_commit'', ''true'', ''bool'', ''Auto-commit changes to git''),
      (''confirm_changes'', ''true'', ''bool'', ''Ask confirmation before applying changes''),
      (''stream_output'', ''true'', ''bool'', ''Stream LLM output token by token''),
      (''max_context_messages'', ''20'', ''int'', ''Max messages to include in context''),
      (''temperature'', ''0.7'', ''string'', ''LLM temperature''),
      (''system_prompt'', ''You are GoClode, an AI coding assistant. You help users write, modify, and understand code. When asked to create or modify files, output the complete file content in markdown code blocks with the filename.'', ''string'', ''System prompt for LLM'')]"

definition insert_or_ignore_config :: "int \<Rightarrow> string \<times> string \<times> string \<times> string \<Rightarrow> (string \<times> config_row) list \<Rightarrow> (string \<times> config_row) list" where
  "insert_or_ignore_config now row t =
     (case row of (k, v, ty, d) \<Rightarrow>
        (case map_of t k of
           Some _ \<Rightarrow> t
         | None \<Rightarrow> t @ [(k, \<lparr>c_value = v, c_type = ty, c_description = Some d,
                              c_updated_at = now, c_version = 1\<rparr>)]))"

definition initSchema :: "Engine \<Rightarrow> error option \<times> Engine" where
  "initSchema e =
     (case driver_call e of
        (Some err, e') \<Rightarrow> (Some err, e')
      | (None, e') \<Rightarrow>
          (None, e'\<lparr>config := fold (insert_or_ignore_config (clock e')) default_config (config e')\<rparr>))"

text \<open>
  \<open>NewEngine\<close> opens the database at the path, pings it and initialises the schema.  Its
  argument is the database as found there, with the driver outcomes to come and the clock;
  the engine starts with no watcher, version 0 and an empty reload channel.
\<close>

definition NewEngine :: "Engine \<Rightarrow> error + Engine" where
  "NewEngine db =
     (case driver_call db of
        (Some err, e1) \<Rightarrow> Inl (Wrapped ''ping database'' err)
      | (None, e1) \<Rightarrow>
          (case initSchema (e1\<lparr>watchers := [], configVersion := 0, reloadCh := 0, spawned := []\<rparr>) of
             (Some err, e2) \<Rightarrow> Inl (Wrapped ''init schema'' err)
           | (None, e2) \<Rightarrow> Inr e2))"

section \<open>Observations and example states\<close>


definition config_value :: "Engine \<Rightarrow> string \<Rightarrow> string option" where
  "config_value e k = map_option c_value (map_of (config e) k)"


text \<open>
  A database file that does not exist yet, at a given time, on a driver that does not
  fail; and the engine that \<open>NewEngine\<close> makes of it.
\<close>

definition new_database :: "int \<Rightarrow> Engine" where
  "new_database now =
     \<lparr>config = [], modules_tbl = [], module_hooks = [], learning_patterns = [],
      faults = [], clock = now, watchers = [], configVersion = 0, reloadCh = 0, spawned = []\<rparr>"

definition fresh_engine :: Engine where
  "fresh_engine = (case NewEngine (new_database 0) of Inr e \<Rightarrow> e | Inl _ \<Rightarrow> new_database 0)"

text \<open>
  A schema script that only creates tables of its own: one driver call, no change to the
  tables modelled here.
\<close>

definition own_tables_script :: "string \<Rightarrow> Engine \<Rightarrow> error option \<times> Engine" where
  "own_tables_script script e = driver_call e"

text \<open>
  The registry of the ordering scenario: module \<open>m1\<close> (priority 50, enabled) with hook
  \<open>H1\<close> (priority 10) and hook \<open>H2\<close> (priority 5) on event \<open>x\<close>, and hook \<open>W\<close>
  (priority 1) on the event \<open>*\<close>, registered in this order on a new engine.
\<close>

definition module_m1 :: Module where
  "module_m1 = \<lparr>m_ID = ''m1'', m_Name = ''Module one'', m_Version = ''1.0.0'', m_Enabled = True,
                 m_Priority = 50, m_Config = ''{}'', m_SchemaSQL = [], m_Hooks = []\<rparr>"

definition hook_H1 :: Hook where
  "hook_H1 = \<lparr>h_ID = ''H1'', h_ModuleID = ''m1'', h_Event = ''x'', h_Handler = ''auto_fix'',
               h_Priority = 10, h_Enabled = True, h_Config = ''{}''\<rparr>"

definition hook_H2 :: Hook where
  "hook_H2 = \<lparr>h_ID = ''H2'', h_ModuleID = ''m1'', h_Event = ''x'', h_Handler = ''log'',
               h_Priority = 5, h_Enabled = True, h_Config = ''{}''\<rparr>"

definition hook_W :: Hook where
  "hook_W = \<lparr>h_ID = ''W'', h_ModuleID = ''m1'', h_Event = ''*'', h_Handler = ''debug'',
              h_Priority = 1, h_Enabled = True, h_Config = ''{}''\<rparr>"

definition example_manager :: ModuleManager where
  "example_manager =
     snd (RegisterHook
       (snd (RegisterHook
         (snd (RegisterHook
           (snd (RegisterModule own_tables_script (NewModuleManager fresh_engine 0) module_m1))
           hook_H1))
         hook_H2))
       hook_W)"

text \<open>
  A handler that always returns an error, and the handler table with it added under the
  name \<open>fail\<close>; a registry whose event \<open>x\<close> has a hook on \<open>fail\<close> (priority 1) before a
  hook on \<open>log\<close> (priority 2).
\<close>

definition always_fails :: HookHandler where
  "always_fails ctx n = Returns (ctx, n, Some (HandlerError ''boom''))"

definition handlers_with_fail :: "string \<rightharpoonup> HookHandler" where
  "handlers_with_fail = builtinHandlers(''fail'' \<mapsto> always_fails)"

definition hook_F :: Hook where
  "hook_F = \<lparr>h_ID = ''F'', h_ModuleID = ''m1'', h_Event = ''x'', h_Handler = ''fail'',
              h_Priority = 1, h_Enabled = True, h_Config = ''{}''\<rparr>"

definition hook_L :: Hook where
  "hook_L = \<lparr>h_ID = ''L'', h_ModuleID = ''m1'', h_Event = ''x'', h_Handler = ''log'',
              h_Priority = 2, h_Enabled = True, h_Config = ''{}''\<rparr>"

definition failing_manager :: ModuleManager where
  "failing_manager =
     snd (RegisterHook
       (snd (RegisterHook
         (snd (RegisterModule own_tables_script (NewModuleManager fresh_engine 0) module_m1))
         hook_F))
       hook_L)"

text \<open>The levels, modules and messages of a debug log, and the result of an \<open>Emit\<close> shown
  by its error and the log it leaves.\<close>

definition log_summary :: "DebugEvent list \<Rightarrow> (string \<times> string \<times> string \<times> message) list" where
  "log_summary evs = map (\<lambda>ev. (d_Level ev, d_Event ev, d_Module ev, d_Message ev)) evs"

definition emit_summary :: "(error option \<times> payload \<times> ModuleManager) outcome \<Rightarrow> (error option \<times> (string \<times> string \<times> string \<times> message) list) outcome" where
  "emit_summary r = (case r of Panics p \<Rightarrow> Panics p | Returns (err, pl, mm) \<Rightarrow> Returns (err, log_summary (debugLog mm)))"

text \<open>
  The module of the scenario switched off; the managers after one and after two
  registrations of \<open>m1\<close> on a new engine; a manager whose next driver calls fail as listed.
\<close>

definition module_off :: Module where
  "module_off = module_m1\<lparr>m_Enabled := False\<rparr>"

definition registered_once :: ModuleManager where
  "registered_once = snd (RegisterModule own_tables_script (NewModuleManager fresh_engine 0) module_m1)"

definition registered_twice :: ModuleManager where
  "registered_twice = snd (RegisterModule own_tables_script registered_once module_m1)"

definition with_faults :: "ModuleManager \<Rightarrow> string option list \<Rightarrow> ModuleManager" where
  "with_faults mm fs = mm\<lparr>engine := (engine mm)\<lparr>faults := fs\<rparr>\<rparr>"

text \<open>A registry with a hook on the handler \<open>llm_analyze\<close> for event \<open>y\<close>.\<close>

definition hook_A :: Hook where
  "hook_A = \<lparr>h_ID = ''A'', h_ModuleID = ''m1'', h_Event = ''y'', h_Handler = ''llm_analyze'',
              h_Priority = 1, h_Enabled = True, h_Config = ''{}''\<rparr>"

definition analyze_manager :: ModuleManager where
  "analyze_manager = snd (RegisterHook registered_once hook_A)"

text \<open>A debug event numbered \<open>i\<close>.\<close>

definition example_event :: "nat \<Rightarrow> DebugEvent" where
  "example_event i = \<lparr>d_ID = i, d_TraceID = 0, d_Level = ''debug'', d_Event = ''x'',
                       d_Module = ''m1'', d_Message = HookExecuted ''log'', d_Data = None\<rparr>"

text \<open>
  What the notifier works on: the watchers, the goroutines started, the signals waiting
  in the reload channel and the last version seen.  \<open>sets\<close> turns key-value pairs into the
  Sets that other goroutines commit, in order.
\<close>

definition notifier_view :: "Engine \<Rightarrow> watcher list \<times> (watcher \<times> string) list \<times> nat \<times> int" where
  "notifier_view e = (watchers e, spawned e, reloadCh e, configVersion e)"

fun sets :: "(string \<times> string) list \<Rightarrow> happening list" where
  "sets [] = []"
| "sets ((k, v) # kvs) = DoSet k v # sets kvs"

section \<open>Properties of the config store\<close>

lemma driver_call_no_faults: "faults e = [] \<Longrightarrow> driver_call e = (None, e)"
  by (simp add: driver_call_def)


lemma map_of_config_version_bump:
  "map_of (config_version_bump now k t) =
     (case map_of t k of None \<Rightarrow> map_of t
      | Some r \<Rightarrow> (map_of t)(k \<mapsto> r\<lparr>c_version := c_version r + 1, c_updated_at := now\<rparr>))"
  by (simp add: config_version_bump_def update_conv' split: option.splits)

lemma map_of_config_upsert:
  "map_of (config_upsert now k v t) =
     (map_of t)(k \<mapsto>
        (case map_of t k of
           None \<Rightarrow> \<lparr>c_value = v, c_type = ''string'', c_description = None, c_updated_at = now, c_version = 1\<rparr>
         | Some r \<Rightarrow> r\<lparr>c_value := v, c_updated_at := now, c_version := c_version r + 2\<rparr>))"
  by (auto simp add: config_upsert_def map_of_config_version_bump update_conv' fun_eq_iff
        intro!: config_row.equality split: option.splits)

lemma SetConfig_no_faults:
  "faults e = [] \<Longrightarrow> SetConfig e k v = (None, e\<lparr>config := config_upsert (clock e) k v (config e)\<rparr>)"
  by (simp add: SetConfig_def driver_call_no_faults)

lemma GetConfig_no_faults:
  "faults e = [] \<Longrightarrow>
     GetConfig e k = (((case map_of (config e) k of None \<Rightarrow> [] | Some r \<Rightarrow> c_value r), None), e)"
  by (simp add: GetConfig_def driver_call_no_faults split: option.splits)







lemma fresh_engine_faults: "faults fresh_engine = []"
  by (simp add: fresh_engine_def NewEngine_def new_database_def driver_call_def initSchema_def)

lemma fresh_engine_k: "map_of (config fresh_engine) ''k'' = None"
  by code_simp

lemma fresh_engine_k_value: "config_value fresh_engine ''k'' = None"
  by code_simp

lemma fresh_engine_auto_commit: "config_value fresh_engine ''auto_commit'' = Some ''true''"
  by code_simp

subsection \<open>Set, Get and the version of a key\<close>




subsection \<open>Get on a key without a row\<close>

text \<open>
  Against C7 as stated.  On a new engine the key \<open>"k"\<close> has no row; after
  \<open>SetConfig "k" ""\<close> it has one, holding the empty string.  \<open>GetConfig "k"\<close> returns
  the same pair in both states (the empty string and a nil error), so its result does
  not tell a missing row from a stored value.
\<close>

theorem GetConfig_absent_counterexample:
  "map_of (config fresh_engine) ''k'' = None \<and>
   map_of (config (snd (SetConfig fresh_engine ''k'' []))) ''k'' \<noteq> None \<and>
   fst (GetConfig fresh_engine ''k'') = fst (GetConfig (snd (SetConfig fresh_engine ''k'' [])) ''k'')"
  by (simp add: SetConfig_no_faults GetConfig_no_faults fresh_engine_faults map_of_config_upsert fresh_engine_k)

text \<open>
  C7, amended.  On a store that does not fail, for every key \<open>k\<close>: \<open>GetConfig k\<close> returns
  the stored value with a nil error when a row for \<open>k\<close> exists, and the empty string with
  a nil error when none exists; in particular it returns \<open>v\<close> after \<open>SetConfig k v\<close>.  A
  key without a row gives the same result as a key that stores the empty string.
\<close>

theorem GetConfig_value_or_empty:
  assumes "faults e = []"
  shows "fst (GetConfig e k) = ((case config_value e k of None \<Rightarrow> [] | Some v \<Rightarrow> v), None) \<and>
         fst (GetConfig (snd (SetConfig e k v)) k) = (v, None) \<and>
         (config_value e k = None \<longrightarrow>
            fst (GetConfig e k) = fst (GetConfig (snd (SetConfig e k [])) k))"
  using assms
  by (auto simp add: SetConfig_no_faults GetConfig_no_faults config_value_def map_of_config_upsert
        split: option.splits)

theorem GetConfig_value_or_empty_witness:
  "faults fresh_engine = [] \<and>
   config_value fresh_engine ''k'' = None \<and>
   fst (GetConfig fresh_engine ''auto_commit'') = (''true'', None) \<and>
   fst (GetConfig fresh_engine ''k'') = ([], None) \<and>
   fst (GetConfig fresh_engine ''k'') = fst (GetConfig (snd (SetConfig fresh_engine ''k'' [])) ''k'')"
  using GetConfig_value_or_empty [OF fresh_engine_faults, of "''auto_commit''" "[]"]
        GetConfig_value_or_empty [OF fresh_engine_faults, of "''k''" "[]"]
  by (simp add: fresh_engine_faults fresh_engine_auto_commit fresh_engine_k_value)

subsection \<open>The typed accessors\<close>


















section \<open>Properties of the change notifier\<close>

lemma notifier_view_SetConfig: "notifier_view (snd (SetConfig e k v)) = notifier_view e"
  by (simp add: notifier_view_def SetConfig_def driver_call_def split: list.splits option.splits)

lemma watchConfig_sets:
  "\<exists>e'. watchConfig (sets kvs @ hs) e = watchConfig hs e' \<and> notifier_view e' = notifier_view e"
proof (induction kvs arbitrary: e)
  case Nil
  show ?case by (rule exI [of _ e]) simp
next
  case (Cons kv kvs)
  obtain k v where kv: "kv = (k, v)" by (cases kv)
  from Cons.IH [of "snd (SetConfig e k v)"] show ?case
    by (auto simp add: kv notifier_view_SetConfig)
qed

lemma watchConfig_tick_view:
  "watchers (watchConfig_tick e) = watchers e \<and>
   (spawned (watchConfig_tick e) = spawned e \<or>
    spawned (watchConfig_tick e) = spawned e @ map (\<lambda>fn. (fn, ''config_changed'')) (watchers e)) \<and>
   reloadCh (watchConfig_tick e) \<le> reloadCh e + 1 \<and>
   reloadCh (watchConfig_tick e) \<le> max 1 (reloadCh e) \<and>
   reloadCh e \<le> reloadCh (watchConfig_tick e)"
  by (auto simp add: watchConfig_tick_def driver_call_def notifyWatchers_def reloadCh_offer_def Let_def
        split: list.splits option.splits)

lemma example_engine_notifier:
  "watchers (engine example_manager) = [ReloadModules] \<and> spawned (engine example_manager) = [] \<and>
   reloadCh (engine example_manager) = 0"
  by code_simp

lemma example_two_sets_tick:
  "spawned (snd (watchConfig (sets [(''k'', ''v1''), (''k'', ''v2'')] @ [Tick]) (engine example_manager))) =
     [(ReloadModules, ''config_changed'')] \<and>
   reloadCh (snd (watchConfig (sets [(''k'', ''v1''), (''k'', ''v2'')] @ [Tick]) (engine example_manager))) = 1 \<and>
   configVersion (snd (watchConfig (sets [(''k'', ''v1''), (''k'', ''v2'')] @ [Tick]) (engine example_manager))) = 3"
  by code_simp

text \<open>
  C9.  Whatever Sets commit between two ticks (the list \<open>kvs\<close>, of any length), the next
  tick leaves the loop running and the watchers as they were; it starts either no
  goroutine or exactly one per registered watcher, each with the event \<open>config_changed\<close>;
  it adds at most one signal to the reload channel, never more than the single slot
  holds, and when a signal is already waiting the channel stays as it is (the new signal
  is dropped and the tick goes on).  A tick whose read of the version fails changes
  nothing but the driver's state, and the loop goes on with the next happening.
\<close>

theorem notifications_coalesced:
  "fst (watchConfig (sets kvs @ [Tick]) e) \<and>
   watchers (snd (watchConfig (sets kvs @ [Tick]) e)) = watchers e \<and>
   (spawned (snd (watchConfig (sets kvs @ [Tick]) e)) = spawned e \<or>
    spawned (snd (watchConfig (sets kvs @ [Tick]) e)) =
      spawned e @ map (\<lambda>fn. (fn, ''config_changed'')) (watchers e)) \<and>
   reloadCh (snd (watchConfig (sets kvs @ [Tick]) e)) \<le> reloadCh e + 1 \<and>
   (reloadCh e \<le> 1 \<longrightarrow> reloadCh (snd (watchConfig (sets kvs @ [Tick]) e)) \<le> 1) \<and>
   (reloadCh e = 1 \<longrightarrow> reloadCh (snd (watchConfig (sets kvs @ [Tick]) e)) = 1) \<and>
   (faults e = Some msg # fs \<longrightarrow> watchConfig (Tick # hs) e = watchConfig hs (e\<lparr>faults := fs\<rparr>))"
proof -
  obtain e' where run: "watchConfig (sets kvs @ [Tick]) e = watchConfig [Tick] e'"
    and view: "notifier_view e' = notifier_view e"
    using watchConfig_sets [of kvs "[Tick]" e] by blast
  have r: "watchConfig (sets kvs @ [Tick]) e = (True, watchConfig_tick e')"
    by (simp add: run)
  have v: "watchers e' = watchers e" "spawned e' = spawned e" "reloadCh e' = reloadCh e"
    using view by (simp_all add: notifier_view_def)
  have fail: "faults e = Some msg # fs \<longrightarrow> watchConfig (Tick # hs) e = watchConfig hs (e\<lparr>faults := fs\<rparr>)"
    by (simp add: watchConfig_tick_def driver_call_def)
  show ?thesis
    using watchConfig_tick_view [of e'] fail
    by (simp add: r v) linarith
qed

theorem notifications_coalesced_witness:
  "reloadCh (engine example_manager) \<le> 1 \<and>
   fst (watchConfig (sets [(''k'', ''v1''), (''k'', ''v2'')] @ [Tick]) (engine example_manager)) \<and>
   spawned (snd (watchConfig (sets [(''k'', ''v1''), (''k'', ''v2'')] @ [Tick]) (engine example_manager))) =
     [(ReloadModules, ''config_changed'')] \<and>
   reloadCh (snd (watchConfig (sets [(''k'', ''v1''), (''k'', ''v2'')] @ [Tick]) (engine example_manager))) \<le> 1 \<and>
   reloadCh ((engine example_manager)\<lparr>reloadCh := 1\<rparr>) = 1 \<and>
   reloadCh (snd (watchConfig (sets [(''k'', ''v1''), (''k'', ''v2'')] @ [Tick])
       ((engine example_manager)\<lparr>reloadCh := 1\<rparr>))) = 1 \<and>
   faults ((engine example_manager)\<lparr>faults := [Some ''database is locked'']\<rparr>) = [Some ''database is locked''] \<and>
   watchConfig [Tick, Tick] ((engine example_manager)\<lparr>faults := [Some ''database is locked'']\<rparr>) =
     watchConfig [Tick] ((engine example_manager)\<lparr>faults := []\<rparr>)"
  using notifications_coalesced [of "[(''k'', ''v1''), (''k'', ''v2'')]" "engine example_manager" "''x''" "[]" "[]"]
        notifications_coalesced [of "[(''k'', ''v1''), (''k'', ''v2'')]" "(engine example_manager)\<lparr>reloadCh := 1\<rparr>" "''x''" "[]" "[]"]
        notifications_coalesced [of "[]" "(engine example_manager)\<lparr>faults := [Some ''database is locked'']\<rparr>" "''database is locked''" "[]" "[Tick]"]
        example_engine_notifier example_two_sets_tick
  by simp

section \<open>Properties of the debug ring\<close>

lemma debugEnabled_logDebug: "debugEnabled (logDebug mm ev) = debugEnabled mm"
  by (simp add: logDebug_def Let_def)

lemma debugLog_logDebug:
  "debugEnabled mm \<Longrightarrow>
     debugLog (logDebug mm ev) =
       (if length (debugLog mm) \<ge> 1000 then tl (debugLog mm) else debugLog mm) @ [ev]"
  by (simp add: logDebug_def Let_def)

lemma ring_contents:
  "debugEnabled mm \<Longrightarrow> length (debugLog mm) \<le> 1000 \<Longrightarrow>
     debugLog (foldl logDebug mm evs) =
       drop (length (debugLog mm) + length evs - 1000) (debugLog mm @ evs)"
proof (induction evs arbitrary: mm)
  case Nil
  then show ?case by simp
next
  case (Cons ev evs)
  let ?mm = "logDebug mm ev"
  have en: "debugEnabled ?mm" using Cons.prems(1) by (simp add: debugEnabled_logDebug)
  show ?case
  proof (cases "length (debugLog mm) = 1000")
    case True
    then obtain x xs where log: "debugLog mm = x # xs" by (cases "debugLog mm") auto
    have l: "debugLog ?mm = xs @ [ev]" using Cons.prems(1) True log by (simp add: debugLog_logDebug)
    have len: "length xs = 999" using True log by simp
    show ?thesis using Cons.IH [OF en] l len log by simp
  next
    case False
    then have lt: "length (debugLog mm) < 1000" using Cons.prems(2) by simp
    have l: "debugLog ?mm = debugLog mm @ [ev]" using Cons.prems(1) lt by (simp add: debugLog_logDebug)
    show ?thesis using Cons.IH [OF en] l lt by simp
  qed
qed

lemma example_manager_debug: "\<not> debugEnabled example_manager \<and> debugLog example_manager = []"
  by code_simp

text \<open>
  C5.  With debugging on, \<open>logDebug\<close> drops the oldest entry and then appends when the
  log holds 1000 entries or more, and only appends when it holds fewer.  So a log of at
  most 1000 entries, after any events \<open>evs\<close> are appended in turn, holds the last 1000 of
  the old entries followed by \<open>evs\<close>, in order, and has \<open>min 1000 (old + new)\<close> entries:
  1001 appends into the empty ring keep exactly 1000 events and lose the first.
\<close>

theorem debug_ring_bound:
  "debugEnabled mm \<longrightarrow>
     (length (debugLog mm) \<ge> 1000 \<longrightarrow> debugLog (logDebug mm ev) = tl (debugLog mm) @ [ev]) \<and>
     (length (debugLog mm) < 1000 \<longrightarrow> debugLog (logDebug mm ev) = debugLog mm @ [ev]) \<and>
     (length (debugLog mm) \<le> 1000 \<longrightarrow>
        debugLog (foldl logDebug mm evs) =
          drop (length (debugLog mm) + length evs - 1000) (debugLog mm @ evs) \<and>
        length (debugLog (foldl logDebug mm evs)) = min 1000 (length (debugLog mm) + length evs))"
  by (auto simp add: ring_contents debugLog_logDebug)

theorem debug_ring_bound_witness:
  "debugEnabled (EnableDebug example_manager) \<and>
   length (debugLog (EnableDebug example_manager)) \<le> 1000 \<and>
   length (debugLog (foldl logDebug (EnableDebug example_manager) (map example_event [0..<1001]))) = 1000 \<and>
   debugLog (foldl logDebug (EnableDebug example_manager) (map example_event [0..<1001])) =
     map example_event [1..<1001]"
  using debug_ring_bound [of "EnableDebug example_manager" "example_event 0" "map example_event [0..<1001]"]
        example_manager_debug
  by (simp add: EnableDebug_def drop_map)

section \<open>Properties of the registry\<close>

lemma driver_call_tables:
  "modules_tbl (snd (driver_call e)) = modules_tbl e \<and> module_hooks (snd (driver_call e)) = module_hooks e \<and>
   clock (snd (driver_call e)) = clock e"
  by (simp add: driver_call_def split: list.splits)

lemma reload_tables: "modules_tbl (engine (snd (reload mm))) = modules_tbl (engine mm)"
  using driver_call_tables [of "engine mm"] driver_call_tables [of "snd (driver_call (engine mm))"]
  by (auto simp add: reload_def Let_def split: prod.splits option.splits)

lemma reload_ok_modules:
  "reload mm = (None, mm') \<Longrightarrow>
     modules mm' = load_modules (query_modules (modules_tbl (engine mm))) Map.empty"
  using driver_call_tables [of "engine mm"]
  by (auto simp add: reload_def Let_def split: prod.splits option.splits)

lemma reload_first_query_fails:
  "faults (engine mm) = Some msg # fs \<Longrightarrow>
     reload mm = (Some (StoreError msg),
                  mm\<lparr>modules := Map.empty, hooks := Map.empty, engine := (engine mm)\<lparr>faults := fs\<rparr>\<rparr>)"
  by (simp add: reload_def driver_call_def Let_def)

lemma reload_second_query_fails:
  "faults (engine mm) = None # Some msg # fs \<Longrightarrow>
     reload mm = (Some (StoreError msg),
                  mm\<lparr>modules := load_modules (query_modules (modules_tbl (engine mm))) Map.empty,
                     hooks := Map.empty, engine := (engine mm)\<lparr>faults := fs\<rparr>\<rparr>)"
  by (simp add: reload_def driver_call_def Let_def)

lemma example_manager_loaded:
  "modules example_manager ''m1'' = Some module_m1 \<and>
   hooks_at (hooks example_manager) ''x'' = [hook_H2, hook_H1] \<and>
   hooks_at (hooks example_manager) ''*'' = [hook_W]"
  by code_simp

lemma example_manager_reload_modules:
  "load_modules (query_modules (modules_tbl (engine example_manager))) Map.empty ''m1'' = Some module_m1"
  by code_simp

subsection \<open>A reload that fails\<close>

text \<open>
  C10.  \<open>reload\<close> empties the module map and the hook index before it queries.  When the
  query for the modules fails, it returns that error and leaves both empty; when the
  query for the hooks fails, it returns that error and leaves the modules just loaded and
  no hook.  Either way a registry that had hooks (or, in the first case, modules) is not
  what it was before the call.
\<close>

theorem reload_failure_clears_registry:
  "(faults (engine mm) = Some msg # fs \<longrightarrow>
      fst (reload mm) = Some (StoreError msg) \<and>
      modules (snd (reload mm)) = Map.empty \<and> hooks (snd (reload mm)) = Map.empty \<and>
      (modules mm \<noteq> Map.empty \<longrightarrow> modules (snd (reload mm)) \<noteq> modules mm) \<and>
      (hooks mm \<noteq> Map.empty \<longrightarrow> hooks (snd (reload mm)) \<noteq> hooks mm)) \<and>
   (faults (engine mm) = None # Some msg # fs \<longrightarrow>
      fst (reload mm) = Some (StoreError msg) \<and>
      modules (snd (reload mm)) = load_modules (query_modules (modules_tbl (engine mm))) Map.empty \<and>
      hooks (snd (reload mm)) = Map.empty \<and>
      (hooks mm \<noteq> Map.empty \<longrightarrow> hooks (snd (reload mm)) \<noteq> hooks mm))"
  by (auto simp add: reload_first_query_fails reload_second_query_fails)

theorem reload_failure_clears_registry_witness:
  "faults (engine (with_faults example_manager [Some ''database is locked''])) = [Some ''database is locked''] \<and>
   faults (engine (with_faults example_manager [None, Some ''database is locked''])) = [None, Some ''database is locked''] \<and>
   modules example_manager ''m1'' = Some module_m1 \<and>
   hooks_at (hooks example_manager) ''x'' = [hook_H2, hook_H1] \<and>
   fst (reload (with_faults example_manager [Some ''database is locked''])) = Some (StoreError ''database is locked'') \<and>
   modules (snd (reload (with_faults example_manager [Some ''database is locked'']))) ''m1'' = None \<and>
   hooks_at (hooks (snd (reload (with_faults example_manager [Some ''database is locked''])))) ''x'' = [] \<and>
   fst (reload (with_faults example_manager [None, Some ''database is locked''])) = Some (StoreError ''database is locked'') \<and>
   modules (snd (reload (with_faults example_manager [None, Some ''database is locked'']))) ''m1'' = Some module_m1 \<and>
   hooks_at (hooks (snd (reload (with_faults example_manager [None, Some ''database is locked''])))) ''x'' = []"
  using reload_failure_clears_registry [of "with_faults example_manager [Some ''database is locked'']" "''database is locked''" "[]"]
        reload_failure_clears_registry [of "with_faults example_manager [None, Some ''database is locked'']" "''database is locked''" "[]"]
        example_manager_loaded example_manager_reload_modules
  by (simp add: with_faults_def hooks_at_def)

subsection \<open>Registering a module twice\<close>

lemma RegisterModule_ok_table:
  assumes "\<forall>e. modules_tbl (snd (run (m_SchemaSQL m) e)) = modules_tbl e"
      and "RegisterModule run mm m = (None, mm')"
  shows "modules_tbl (engine mm') = modules_upsert (clock (engine mm)) m (modules_tbl (engine mm))"
proof -
  obtain e1 where dc: "driver_call (engine mm) = (None, e1)"
    using assms(2) by (auto simp add: RegisterModule_def split: prod.splits option.splits)
  have e1: "modules_tbl e1 = modules_tbl (engine mm)" "clock e1 = clock (engine mm)"
    using driver_call_tables [of "engine mm"] dc by simp_all
  let ?e2 = "e1\<lparr>modules_tbl := modules_upsert (clock e1) m (modules_tbl e1)\<rparr>"
  show ?thesis
  proof (cases "m_SchemaSQL m = []")
    case True
    then have "mm' = snd (reload (mm\<lparr>engine := ?e2\<rparr>))"
      using assms(2) dc by (simp add: RegisterModule_def Let_def)
    then show ?thesis using e1 by (simp add: reload_tables)
  next
    case False
    then obtain e3 where run: "run (m_SchemaSQL m) ?e2 = (None, e3)"
      and mm': "mm' = snd (reload (mm\<lparr>engine := e3\<rparr>))"
      using assms(2) dc by (auto simp add: RegisterModule_def Let_def split: prod.splits option.splits)
    have "modules_tbl e3 = modules_tbl ?e2"
      using assms(1) run by (metis snd_conv)
    then show ?thesis using e1 mm' by (simp add: reload_tables)
  qed
qed

lemma map_of_modules_upsert:
  "map_of (modules_upsert now m t) =
     (map_of t)(m_ID m \<mapsto>
       (case map_of t (m_ID m) of
          None \<Rightarrow> \<lparr>r_name = m_Name m, r_version = Some (m_Version m),
             r_enabled = Some (if m_Enabled m then 1 else 0), r_priority = Some (m_Priority m),
             r_hooks = Some ''[]'', r_config = Some (m_Config m),
             r_schema_sql = Some (m_SchemaSQL m), r_created_at = now, r_updated_at = now\<rparr>
        | Some r \<Rightarrow> r\<lparr>r_name := m_Name m, r_version := Some (m_Version m),
               r_enabled := Some (if m_Enabled m then 1 else 0), r_priority := Some (m_Priority m),
               r_config := Some (m_Config m), r_schema_sql := Some (m_SchemaSQL m),
               r_updated_at := now\<rparr>))"
  by (simp add: modules_upsert_def update_conv' split: option.splits)

lemma distinct_modules_upsert:
  "distinct (map fst t) \<Longrightarrow> distinct (map fst (modules_upsert now m t))"
  by (simp add: modules_upsert_def distinct_update split: option.splits)

lemma length_update_present:
  "map_of t k \<noteq> None \<Longrightarrow> length (AList.update k v t) = length t"
  by (induction t) auto

lemma length_modules_upsert_present:
  "map_of t (m_ID m) \<noteq> None \<Longrightarrow> length (modules_upsert now m t) = length t"
  by (auto simp add: modules_upsert_def length_update_present split: option.splits)

lemma one_row_per_key:
  "distinct (map fst t) \<Longrightarrow> map_of t k \<noteq> None \<Longrightarrow> length (filter (\<lambda>kr. fst kr = k) t) = 1"
proof (induction t)
  case Nil
  then show ?case by simp
next
  case (Cons a t)
  show ?case
  proof (cases "fst a = k")
    case True
    then have "k \<notin> fst ` set t" using Cons.prems(1) by auto
    then have "filter (\<lambda>kr. fst kr = k) t = []" by (auto simp add: filter_empty_conv)
    then show ?thesis using True by simp
  next
    case False
    then have "map_of t k \<noteq> None" using Cons.prems(2) by (cases a) auto
    then show ?thesis using Cons.IH Cons.prems(1) False by simp
  qed
qed

lemma scan_module_ID: "scan_module kr = Some m \<Longrightarrow> m_ID m = fst kr"
  by (auto simp add: scan_module_def split: option.splits)

lemma load_modules_distinct:
  "distinct (map fst rows) \<Longrightarrow>
     load_modules rows ms k =
       (case map_of rows k of
          None \<Rightarrow> ms k
        | Some r \<Rightarrow> (case scan_module (k, r) of None \<Rightarrow> ms k | Some m \<Rightarrow> Some m))"
proof (induction rows arbitrary: ms)
  case Nil
  then show ?case by simp
next
  case (Cons row rows)
  obtain k' r' where row: "row = (k', r')" by (cases row)
  have d: "distinct (map fst rows)" and nk: "k' \<notin> fst ` set rows"
    using Cons.prems row by auto
  have absent: "map_of rows k' = None" using nk by (simp add: map_of_eq_None_iff)
  show ?case
  proof (cases "scan_module row")
    case None
    have "load_modules (row # rows) ms k = load_modules rows ms k" using None by simp
    also have "\<dots> = (case map_of rows k of None \<Rightarrow> ms k
        | Some r \<Rightarrow> (case scan_module (k, r) of None \<Rightarrow> ms k | Some m \<Rightarrow> Some m))"
      by (rule Cons.IH [OF d])
    also have "\<dots> = (case map_of (row # rows) k of None \<Rightarrow> ms k
        | Some r \<Rightarrow> (case scan_module (k, r) of None \<Rightarrow> ms k | Some m \<Rightarrow> Some m))"
      using None row absent by (cases "k = k'") (auto split: option.splits)
    finally show ?thesis .
  next
    case (Some m)
    then have id: "m_ID m = k'" using scan_module_ID [of row m] row by simp
    let ?ms = "ms(k' \<mapsto> m)"
    have "load_modules (row # rows) ms k = load_modules rows ?ms k" using Some id by simp
    also have "\<dots> = (case map_of rows k of None \<Rightarrow> ?ms k
        | Some r \<Rightarrow> (case scan_module (k, r) of None \<Rightarrow> ?ms k | Some m \<Rightarrow> Some m))"
      by (rule Cons.IH [OF d])
    also have "\<dots> = (case map_of (row # rows) k of None \<Rightarrow> ms k
        | Some r \<Rightarrow> (case scan_module (k, r) of None \<Rightarrow> ms k | Some m \<Rightarrow> Some m))"
      using Some row absent by (cases "k = k'") (auto split: option.splits)
    finally show ?thesis .
  qed
qed

lemma load_modules_keys:
  "load_modules rows ms k = Some m \<Longrightarrow> ms k = Some m \<or> m_ID m = k"
proof (induction rows arbitrary: ms)
  case Nil
  then show ?case by simp
next
  case (Cons row rows)
  show ?case
  proof (cases "scan_module row")
    case None
    then show ?thesis using Cons by simp
  next
    case (Some m')
    let ?ms = "ms(m_ID m' \<mapsto> m')"
    have "load_modules rows ?ms k = Some m" using Cons.prems Some by simp
    then have "?ms k = Some m \<or> m_ID m = k" by (rule Cons.IH)
    then show ?thesis by (cases "k = m_ID m'") auto
  qed
qed

lemma distinct_query_modules:
  "distinct (map fst t) \<Longrightarrow> distinct (map fst (query_modules t))"
  by (simp add: query_modules_def distinct_map inj_on_def)

lemma map_of_query_modules:
  assumes "distinct (map fst t)"
  shows "map_of (query_modules t) k =
     (case map_of t k of None \<Rightarrow> None | Some r \<Rightarrow> if r_enabled r = Some 1 then Some r else None)"
proof (cases "map_of (query_modules t) k")
  case None
  then have "\<forall>r. (k, r) \<notin> set (query_modules t)"
    using distinct_query_modules [OF assms] by (metis map_of_eq_Some_iff option.distinct(1))
  then show ?thesis using None assms
    by (auto simp add: query_modules_def split: option.splits)
next
  case (Some r)
  then have "(k, r) \<in> set (query_modules t)" by (rule map_of_SomeD)
  then show ?thesis using Some assms by (auto simp add: query_modules_def)
qed

lemma scan_registered_row:
  assumes "map_of (modules_upsert now m t) (m_ID m) = Some r"
  shows "scan_module (m_ID m, r) = Some (m\<lparr>m_Hooks := []\<rparr>) \<and>
         (r_enabled r = Some 1) = m_Enabled m"
proof -
  have r: "r_name r = m_Name m \<and> r_version r = Some (m_Version m) \<and>
        r_enabled r = Some (if m_Enabled m then 1 else 0) \<and> r_priority r = Some (m_Priority m) \<and>
        r_config r = Some (m_Config m) \<and> r_schema_sql r = Some (m_SchemaSQL m)"
    using assms by (auto simp add: map_of_modules_upsert split: option.splits)
  then show ?thesis
    by (cases m) (simp add: scan_module_def scan_bool_def)
qed

text \<open>
  Against C6 as stated.  The module \<open>m1\<close> with \<open>Enabled = false\<close> is registered twice
  on a new engine; both calls and the following \<open>reload\<close> succeed, and the module map
  has no entry for \<open>m1\<close>: \<open>reload\<close> selects the rows with \<open>enabled = 1\<close> only.
\<close>

theorem disabled_module_counterexample:
  "fst (RegisterModule own_tables_script (NewModuleManager fresh_engine 0) module_off) = None \<and>
   fst (RegisterModule own_tables_script
          (snd (RegisterModule own_tables_script (NewModuleManager fresh_engine 0) module_off)) module_off) = None \<and>
   fst (reload (snd (RegisterModule own_tables_script
          (snd (RegisterModule own_tables_script (NewModuleManager fresh_engine 0) module_off)) module_off))) = None \<and>
   modules (snd (reload (snd (RegisterModule own_tables_script
          (snd (RegisterModule own_tables_script (NewModuleManager fresh_engine 0) module_off)) module_off))))
      (m_ID module_off) = None"
  by code_simp

text \<open>
  C6, amended.  Take a modules table that obeys its primary key, a schema script that
  leaves the modules table alone, and a module \<open>m\<close>.  When \<open>RegisterModule m\<close>
  succeeds twice in a row, the table holds exactly one row with the id of \<open>m\<close>, and the
  second call added no row.  After a \<open>reload\<close> that succeeds, the module map has the
  entry \<open>m\<close> (with an empty hook list) under that id when \<open>m\<close> is enabled and no entry
  under it when \<open>m\<close> is disabled; every entry of the map sits under its own id, so
  there is at most one for the module.
\<close>

theorem RegisterModule_twice:
  assumes wf: "distinct (map fst (modules_tbl (engine mm)))"
      and script: "\<forall>e. modules_tbl (snd (run (m_SchemaSQL m) e)) = modules_tbl e"
      and r1: "RegisterModule run mm m = (None, mm1)"
      and r2: "RegisterModule run mm1 m = (None, mm2)"
      and r3: "reload mm2 = (None, mm3)"
  shows "length (filter (\<lambda>kr. fst kr = m_ID m) (modules_tbl (engine mm2))) = 1 \<and>
         length (modules_tbl (engine mm2)) = length (modules_tbl (engine mm1)) \<and>
         modules mm3 (m_ID m) = (if m_Enabled m then Some (m\<lparr>m_Hooks := []\<rparr>) else None) \<and>
         (\<forall>k m'. modules mm3 k = Some m' \<longrightarrow> m_ID m' = k)"
proof -
  let ?T0 = "modules_tbl (engine mm)"
  let ?T1 = "modules_tbl (engine mm1)"
  let ?T2 = "modules_tbl (engine mm2)"
  have T1: "?T1 = modules_upsert (clock (engine mm)) m ?T0"
    using script r1 by (rule RegisterModule_ok_table)
  have T2: "?T2 = modules_upsert (clock (engine mm1)) m ?T1"
    using script r2 by (rule RegisterModule_ok_table)
  have d1: "distinct (map fst ?T1)" using wf by (simp add: T1 distinct_modules_upsert)
  have d2: "distinct (map fst ?T2)" using d1 by (simp add: T2 distinct_modules_upsert)
  have in1: "map_of ?T1 (m_ID m) \<noteq> None" by (simp add: T1 map_of_modules_upsert)
  obtain r where r: "map_of ?T2 (m_ID m) = Some r" by (auto simp add: T2 map_of_modules_upsert)
  have one: "length (filter (\<lambda>kr. fst kr = m_ID m) ?T2) = 1"
    using d2 r by (simp add: one_row_per_key)
  have same: "length ?T2 = length ?T1"
    using in1 by (simp add: T2 length_modules_upsert_present)
  have mods: "modules mm3 = load_modules (query_modules ?T2) Map.empty"
    using r3 by (rule reload_ok_modules)
  have sc: "scan_module (m_ID m, r) = Some (m\<lparr>m_Hooks := []\<rparr>)" "(r_enabled r = Some 1) = m_Enabled m"
    using scan_registered_row [of "clock (engine mm1)" m ?T1 r] r T2 by simp_all
  have entry: "modules mm3 (m_ID m) = (if m_Enabled m then Some (m\<lparr>m_Hooks := []\<rparr>) else None)"
    using sc r by (simp add: mods load_modules_distinct [OF distinct_query_modules [OF d2]]
        map_of_query_modules [OF d2])
  have keys: "\<forall>k m'. modules mm3 k = Some m' \<longrightarrow> m_ID m' = k"
    using load_modules_keys [of "query_modules ?T2" Map.empty] by (auto simp add: mods)
  from one same entry keys show ?thesis by blast
qed


lemma own_tables_script_modules:
  "\<forall>e. modules_tbl (snd (own_tables_script s e)) = modules_tbl e"
  by (simp add: own_tables_script_def driver_call_tables)

lemma example_registrations:
  "distinct (map fst (modules_tbl (engine (NewModuleManager fresh_engine 0)))) \<and>
   fst (RegisterModule own_tables_script (NewModuleManager fresh_engine 0) module_m1) = None \<and>
   fst (RegisterModule own_tables_script registered_once module_m1) = None \<and>
   fst (reload registered_twice) = None"
  by code_simp

theorem RegisterModule_twice_witness:
  "distinct (map fst (modules_tbl (engine (NewModuleManager fresh_engine 0)))) \<and>
   RegisterModule own_tables_script (NewModuleManager fresh_engine 0) module_m1 = (None, registered_once) \<and>
   RegisterModule own_tables_script registered_once module_m1 = (None, registered_twice) \<and>
   reload registered_twice = (None, snd (reload registered_twice)) \<and>
   length (filter (\<lambda>kr. fst kr = ''m1'') (modules_tbl (engine registered_twice))) = 1 \<and>
   modules (snd (reload registered_twice)) ''m1'' = Some module_m1"
proof -
  have wf: "distinct (map fst (modules_tbl (engine (NewModuleManager fresh_engine 0))))"
    using example_registrations by simp
  have r1: "RegisterModule own_tables_script (NewModuleManager fresh_engine 0) module_m1 = (None, registered_once)"
    using example_registrations by (simp add: registered_once_def prod_eq_iff)
  have r2: "RegisterModule own_tables_script registered_once module_m1 = (None, registered_twice)"
    using example_registrations by (simp add: registered_twice_def prod_eq_iff)
  have r3: "reload registered_twice = (None, snd (reload registered_twice))"
    using example_registrations by (simp add: prod_eq_iff)
  show ?thesis
    using RegisterModule_twice [OF wf own_tables_script_modules r1 r2 r3] wf r1 r2 r3
    by (simp add: module_m1_def)
qed

section \<open>Properties of dispatch\<close>

lemma emit_summary_Panics: "emit_summary r = Panics p \<Longrightarrow> r = Panics p"
  by (cases r) (auto simp add: emit_summary_def)

text \<open>
  With the nil debug context a run over the hooks returns only when no hook names a
  handler of the table: the first hook that does makes it panic.
\<close>

lemma run_hooks_nil_debugCtx:
  "run_hooks tbl hs event None ctx mm = Returns r \<Longrightarrow>
     (\<forall>h\<in>set hs. tbl (h_Handler h) = None) \<and> r = (ctx, mm)"
proof (induction hs)
  case Nil
  then show ?case by simp
next
  case (Cons h hs)
  show ?case
  proof (cases "tbl (h_Handler h)")
    case None
    then show ?thesis using Cons by simp
  next
    case (Some handler)
    then have False using Cons.prems
      by (cases "handler ctx (uuid_cnt mm)") (auto split: prod.splits)
    then show ?thesis ..
  qed
qed

lemma Emit_debug_off:
  assumes "\<not> debugEnabled mm" and "Emit tbl mm event pl = Returns r"
  shows "\<forall>h\<in>set (hooks_at (hooks mm) event). tbl (h_Handler h) = None"
proof (cases "hooks_at (hooks mm) event = []")
  case True
  then show ?thesis by simp
next
  case False
  let ?ctx = "\<lparr>x_Event = event, x_Payload = pl, x_Session = [], x_Debug = None\<rparr>"
  from assms False obtain r' where "run_hooks tbl (hooks_at (hooks mm) event) event None ?ctx mm = Returns r'"
    by (cases "run_hooks tbl (hooks_at (hooks mm) event) event None ?ctx mm")
       (auto simp add: Emit_def Let_def)
  then show ?thesis using run_hooks_nil_debugCtx by blast
qed

lemma example_dispatch:
  "\<not> debugEnabled example_manager \<and>
   emit_summary (Emit builtinHandlers example_manager ''x'' (Some Map.empty)) = Panics NilPointerDereference \<and>
   emit_summary (Emit builtinHandlers (EnableDebug example_manager) ''x'' (Some Map.empty)) =
     Returns (None, [(''debug'', ''x'', ''m1'', HookExecuted ''log''),
                     (''debug'', ''x'', ''m1'', HookExecuted ''auto_fix'')])"
  by code_simp

lemma failing_dispatch:
  "\<not> debugEnabled failing_manager \<and>
   hooks_at (hooks failing_manager) ''x'' = [hook_F, hook_L] \<and>
   emit_summary (Emit handlers_with_fail failing_manager ''x'' (Some Map.empty)) = Panics NilPointerDereference \<and>
   emit_summary (Emit handlers_with_fail (EnableDebug failing_manager) ''x'' (Some Map.empty)) =
     Returns (None, [(''error'', ''x'', ''m1'', HookFailed ''fail'' (HandlerError ''boom'')),
                     (''debug'', ''x'', ''m1'', HookExecuted ''log'')])"
  by code_simp

lemma nil_payload_dispatch:
  "hooks_at (hooks analyze_manager) ''y'' = [hook_A] \<and>
   emit_summary (Emit builtinHandlers (EnableDebug analyze_manager) ''y'' None) = Panics NilMapAssignment"
  by code_simp

text \<open>
  The code against C1.  In the registry of the ordering scenario debugging is off, as it
  is after start-up.  \<open>Emit "x"\<close> with an empty payload runs the handler of \<open>H2\<close> and then
  builds the debug event for it, reading the trace id through the nil \<open>debugCtx\<close>: the
  call panics instead of returning.
\<close>

theorem Emit_panics_debug_off:
  "\<not> debugEnabled example_manager \<and>
   hooks_at (hooks example_manager) ''x'' = [hook_H2, hook_H1] \<and>
   Emit builtinHandlers example_manager ''x'' (Some Map.empty) = Panics NilPointerDereference"
  using example_dispatch example_manager_loaded by (simp add: emit_summary_Panics)

text \<open>
  With debugging on and the nil map as payload, the handler \<open>llm_analyze\<close> writes into the
  nil map, and \<open>Emit\<close> panics as well.
\<close>

lemma Emit_panics_nil_payload:
  "Emit builtinHandlers (EnableDebug analyze_manager) ''y'' None = Panics NilMapAssignment"
  using nil_payload_dispatch by (simp add: emit_summary_Panics)

text \<open>
  The code against C2.  The registry holds \<open>W\<close> (priority 1) on the event \<open>*\<close> and
  \<open>H2\<close> (priority 5) and \<open>H1\<close> (priority 10) on \<open>x\<close>.  \<open>Emit "x"\<close>, with debugging on,
  runs the handler of \<open>H2\<close> and then the handler of \<open>H1\<close> and nothing else: the log has
  one event for \<open>log\<close> and one for \<open>auto_fix\<close>, none for the handler \<open>debug\<close> of \<open>W\<close>.
  \<open>Emit\<close> reads the hooks under the name of the event only.
\<close>

theorem wildcard_hook_not_dispatched:
  "hooks_at (hooks example_manager) ''*'' = [hook_W] \<and>
   hooks_at (hooks example_manager) ''x'' = [hook_H2, hook_H1] \<and>
   emit_summary (Emit builtinHandlers (EnableDebug example_manager) ''x'' (Some Map.empty)) =
     Returns (None, [(''debug'', ''x'', ''m1'', HookExecuted ''log''),
                     (''debug'', ''x'', ''m1'', HookExecuted ''auto_fix'')])"
  using example_dispatch example_manager_loaded by simp

text \<open>
  The code against C4.  The event \<open>x\<close> has a hook on a handler that returns an error
  (priority 1) before a hook on \<open>log\<close> (priority 2).  With debugging off, \<open>Emit "x"\<close> runs
  the failing handler and panics on the nil \<open>debugCtx\<close> while it builds the error event:
  the hook on \<open>log\<close> is not run and \<open>Emit\<close> does not return.  With debugging on, the same
  call returns nil and logs one event at level \<open>error\<close> for the failing hook and one at
  level \<open>debug\<close> for the hook after it.
\<close>

theorem failing_handler_aborts_debug_off:
  "hooks_at (hooks failing_manager) ''x'' = [hook_F, hook_L] \<and>
   \<not> debugEnabled failing_manager \<and>
   Emit handlers_with_fail failing_manager ''x'' (Some Map.empty) = Panics NilPointerDereference \<and>
   emit_summary (Emit handlers_with_fail (EnableDebug failing_manager) ''x'' (Some Map.empty)) =
     Returns (None, [(''error'', ''x'', ''m1'', HookFailed ''fail'' (HandlerError ''boom'')),
                     (''debug'', ''x'', ''m1'', HookExecuted ''log'')])"
  using failing_dispatch by (simp add: emit_summary_Panics)

subsection \<open>What dispatch does with tracing on\<close>

text \<open>
  The log after a run depends on the manager only through its debug flag and its log.
\<close>

lemma debugLog_foldl_logDebug_cong:
  "debugEnabled a = debugEnabled b \<Longrightarrow> debugLog a = debugLog b \<Longrightarrow>
     debugLog (foldl logDebug a evs) = debugLog (foldl logDebug b evs)"
proof (induction evs arbitrary: a b)
  case Nil
  then show ?case by simp
next
  case (Cons ev evs)
  have en: "debugEnabled (logDebug a ev) = debugEnabled (logDebug b ev)"
    using Cons.prems by (simp add: debugEnabled_logDebug)
  have lg: "debugLog (logDebug a ev) = debugLog (logDebug b ev)"
    using Cons.prems by (simp add: logDebug_def Let_def)
  have "debugLog (foldl logDebug (logDebug a ev) evs) = debugLog (foldl logDebug (logDebug b ev) evs)"
    using en lg by (rule Cons.IH)
  then show ?case by simp
qed

text \<open>
  Per-hook isolation when a debug context exists.  For a table whose handlers return
  (with or without an error) on every context that satisfies \<open>I\<close>, and keep \<open>I\<close>: the
  run over any hook list returns, and it has called \<open>logDebug\<close> once for every hook whose
  handler name is in the table, in the order of the list, with the hook's module, the
  event and the trace id, at level \<open>debug\<close> or \<open>error\<close>.
\<close>

lemma run_hooks_traced:
  assumes inv: "\<And>name handler c n. tbl name = Some handler \<Longrightarrow> I c \<Longrightarrow>
                  \<exists>c' n' err. handler c n = Returns (c', n', err) \<and> I c'"
  shows "I ctx \<Longrightarrow>
         \<exists>ctx' mm' evs.
           run_hooks tbl hs event (Some t) ctx mm = Returns (ctx', mm') \<and> I ctx' \<and>
           debugEnabled mm' = debugEnabled mm \<and>
           debugLog mm' = debugLog (foldl logDebug mm evs) \<and>
           map d_Module evs = map h_ModuleID (filter (\<lambda>h. tbl (h_Handler h) \<noteq> None) hs) \<and>
           (\<forall>ev\<in>set evs. d_Event ev = event \<and> d_TraceID ev = t \<and>
              (d_Level ev = ''debug'' \<or> d_Level ev = ''error''))"
proof (induction hs arbitrary: ctx mm)
  case Nil
  have "run_hooks tbl [] event (Some t) ctx mm = Returns (ctx, mm) \<and> I ctx \<and>
        debugEnabled mm = debugEnabled mm \<and> debugLog mm = debugLog (foldl logDebug mm []) \<and>
        map d_Module [] = map h_ModuleID (filter (\<lambda>h. tbl (h_Handler h) \<noteq> None) []) \<and>
        (\<forall>ev\<in>set []. d_Event ev = event \<and> d_TraceID ev = t \<and>
              (d_Level ev = ''debug'' \<or> d_Level ev = ''error''))"
    using Nil by simp
  then show ?case by (intro exI)
next
  case (Cons h hs)
  show ?case
  proof (cases "tbl (h_Handler h)")
    case None
    have eq: "run_hooks tbl (h # hs) event (Some t) ctx mm = run_hooks tbl hs event (Some t) ctx mm"
      using None by simp
    have fl: "filter (\<lambda>h. tbl (h_Handler h) \<noteq> None) (h # hs) = filter (\<lambda>h. tbl (h_Handler h) \<noteq> None) hs"
      using None by simp
    show ?thesis unfolding eq fl by (rule Cons.IH [OF Cons.prems])
  next
    case (Some handler)
    from inv [OF Some Cons.prems, of "uuid_cnt mm"]
    obtain c' n' err where run: "handler ctx (uuid_cnt mm) = Returns (c', n', err)" and c': "I c'"
      by (elim exE conjE)
    define ev0 where "ev0 = \<lparr>d_ID = n', d_TraceID = t,
                 d_Level = (case err of None \<Rightarrow> ''debug'' | Some _ \<Rightarrow> ''error''),
                 d_Event = event, d_Module = h_ModuleID h,
                 d_Message = (case err of None \<Rightarrow> HookExecuted (h_Handler h)
                              | Some e \<Rightarrow> HookFailed (h_Handler h) e),
                 d_Data = None\<rparr>"
    define mm0 where "mm0 = logDebug (mm\<lparr>uuid_cnt := n' + 1\<rparr>) ev0"
    have eq: "run_hooks tbl (h # hs) event (Some t) ctx mm = run_hooks tbl hs event (Some t) c' mm0"
      using Some run by (simp add: ev0_def mm0_def)
    from Cons.IH [OF c', of mm0]
    obtain ctx' mm' evs where
      r: "run_hooks tbl hs event (Some t) c' mm0 = Returns (ctx', mm')" and i: "I ctx'" and
      en: "debugEnabled mm' = debugEnabled mm0" and
      lg: "debugLog mm' = debugLog (foldl logDebug mm0 evs)" and
      md: "map d_Module evs = map h_ModuleID (filter (\<lambda>h. tbl (h_Handler h) \<noteq> None) hs)" and
      lv: "\<forall>ev\<in>set evs. d_Event ev = event \<and> d_TraceID ev = t \<and>
              (d_Level ev = ''debug'' \<or> d_Level ev = ''error'')"
      by (elim exE conjE)
    have en': "debugEnabled mm' = debugEnabled mm"
      using en by (simp add: mm0_def debugEnabled_logDebug)
    have same: "debugLog (foldl logDebug mm0 evs) = debugLog (foldl logDebug (logDebug mm ev0) evs)"
      unfolding mm0_def by (rule debugLog_foldl_logDebug_cong) (simp_all add: logDebug_def Let_def)
    have lg': "debugLog mm' = debugLog (foldl logDebug mm (ev0 # evs))"
      using lg same by simp
    have md': "map d_Module (ev0 # evs) = map h_ModuleID (filter (\<lambda>h. tbl (h_Handler h) \<noteq> None) (h # hs))"
      using md Some by (simp add: ev0_def)
    have ev0: "d_Event ev0 = event \<and> d_TraceID ev0 = t \<and> (d_Level ev0 = ''debug'' \<or> d_Level ev0 = ''error'')"
      by (cases err) (simp_all add: ev0_def)
    have lv': "\<forall>ev\<in>set (ev0 # evs). d_Event ev = event \<and> d_TraceID ev = t \<and>
              (d_Level ev = ''debug'' \<or> d_Level ev = ''error'')"
      using lv ev0 by simp
    have "run_hooks tbl (h # hs) event (Some t) ctx mm = Returns (ctx', mm') \<and> I ctx' \<and>
           debugEnabled mm' = debugEnabled mm \<and>
           debugLog mm' = debugLog (foldl logDebug mm (ev0 # evs)) \<and>
           map d_Module (ev0 # evs) = map h_ModuleID (filter (\<lambda>h. tbl (h_Handler h) \<noteq> None) (h # hs)) \<and>
           (\<forall>ev\<in>set (ev0 # evs). d_Event ev = event \<and> d_TraceID ev = t \<and>
              (d_Level ev = ''debug'' \<or> d_Level ev = ''error''))"
      using eq r i en' lg' md' lv' by (intro conjI) simp_all
    then show ?thesis by (intro exI)
  qed
qed

text \<open>
  The built-in handlers return on every context whose payload is not the nil map, and
  leave such a payload in place.
\<close>

lemma handleLog_returns:
  "x_Payload c \<noteq> None \<Longrightarrow> \<exists>c' n' err. handleLog c n = Returns (c', n', err) \<and> x_Payload c' \<noteq> None"
  by (simp add: handleLog_def)

lemma handleDebug_returns:
  "x_Payload c \<noteq> None \<Longrightarrow> \<exists>c' n' err. handleDebug c n = Returns (c', n', err) \<and> x_Payload c' \<noteq> None"
  by (cases "x_Debug c") (simp_all add: handleDebug_def Let_def)

lemma handleLLMAnalyze_returns:
  "x_Payload c \<noteq> None \<Longrightarrow> \<exists>c' n' err. handleLLMAnalyze c n = Returns (c', n', err) \<and> x_Payload c' \<noteq> None"
  by (cases "x_Debug c"; cases "x_Payload c") (simp_all add: handleLLMAnalyze_def payload_set_def)

lemma handleTestAssert_returns:
  "x_Payload c \<noteq> None \<Longrightarrow> \<exists>c' n' err. handleTestAssert c n = Returns (c', n', err) \<and> x_Payload c' \<noteq> None"
  by (cases "x_Debug c") (simp_all add: handleTestAssert_def Let_def)

lemma handleAutoFix_returns:
  "x_Payload c \<noteq> None \<Longrightarrow> \<exists>c' n' err. handleAutoFix c n = Returns (c', n', err) \<and> x_Payload c' \<noteq> None"
  by (cases "x_Payload c")
     (auto simp add: handleAutoFix_def payload_set_def split: option.splits jvalue.splits)

lemma handlePatternLearn_returns:
  "x_Payload c \<noteq> None \<Longrightarrow> \<exists>c' n' err. handlePatternLearn c n = Returns (c', n', err) \<and> x_Payload c' \<noteq> None"
  by (simp add: handlePatternLearn_def Let_def)

lemma builtinHandlers_cases:
  "builtinHandlers name = Some handler \<Longrightarrow>
     handler = handleLog \<or> handler = handleDebug \<or> handler = handleLLMAnalyze \<or>
     handler = handleTestAssert \<or> handler = handleAutoFix \<or> handler = handlePatternLearn"
  by (simp add: builtinHandlers_def split: if_splits)

lemma builtinHandlers_return:
  assumes "builtinHandlers name = Some handler" and "x_Payload c \<noteq> None"
  shows "\<exists>c' n' err. handler c n = Returns (c', n', err) \<and> x_Payload c' \<noteq> None"
  using builtinHandlers_cases [OF assms(1)] assms(2)
        handleLog_returns [of c n] handleDebug_returns [of c n] handleLLMAnalyze_returns [of c n]
        handleTestAssert_returns [of c n] handleAutoFix_returns [of c n] handlePatternLearn_returns [of c n]
  by blast

text \<open>
  So with debugging on and a payload that is not the nil map, \<open>Emit\<close> with the built-in
  handlers never panics and returns a nil error, and it has logged one event, at level
  \<open>debug\<close> or \<open>error\<close>, for every hook of the event whose handler name is known, in the
  order of the hook list.
\<close>

lemma Emit_traced:
  assumes "debugEnabled mm" and "pl \<noteq> None"
  shows "\<exists>pl' mm' evs.
           Emit builtinHandlers mm event pl = Returns (None, pl', mm') \<and>
           debugLog mm' = debugLog (foldl logDebug mm evs) \<and>
           map d_Module evs =
             map h_ModuleID (filter (\<lambda>h. builtinHandlers (h_Handler h) \<noteq> None) (hooks_at (hooks mm) event)) \<and>
           (\<forall>ev\<in>set evs. d_Event ev = event \<and> (d_Level ev = ''debug'' \<or> d_Level ev = ''error''))"
proof (cases "hooks_at (hooks mm) event = []")
  case True
  have "Emit builtinHandlers mm event pl = Returns (None, pl, mm) \<and>
        debugLog mm = debugLog (foldl logDebug mm []) \<and>
        map d_Module [] =
          map h_ModuleID (filter (\<lambda>h. builtinHandlers (h_Handler h) \<noteq> None) (hooks_at (hooks mm) event)) \<and>
        (\<forall>ev\<in>set []. d_Event ev = event \<and> (d_Level ev = ''debug'' \<or> d_Level ev = ''error''))"
    using True by (simp add: Emit_def)
  then show ?thesis by (intro exI)
next
  case False
  define mm1 where "mm1 = mm\<lparr>uuid_cnt := uuid_cnt mm + 1\<rparr>"
  define ctx where "ctx = \<lparr>x_Event = event, x_Payload = pl, x_Session = [],
      x_Debug = Some \<lparr>t_TraceID = uuid_cnt mm, t_ParentID = [], t_Events = [], t_Assertions = []\<rparr>\<rparr>"
  have i: "x_Payload ctx \<noteq> None" using assms(2) by (simp add: ctx_def)
  have "\<exists>ctx' mm' evs.
           run_hooks builtinHandlers (hooks_at (hooks mm) event) event (Some (uuid_cnt mm)) ctx mm1 =
             Returns (ctx', mm') \<and> x_Payload ctx' \<noteq> None \<and>
           debugEnabled mm' = debugEnabled mm1 \<and>
           debugLog mm' = debugLog (foldl logDebug mm1 evs) \<and>
           map d_Module evs =
             map h_ModuleID (filter (\<lambda>h. builtinHandlers (h_Handler h) \<noteq> None) (hooks_at (hooks mm) event)) \<and>
           (\<forall>ev\<in>set evs. d_Event ev = event \<and> d_TraceID ev = uuid_cnt mm \<and>
              (d_Level ev = ''debug'' \<or> d_Level ev = ''error''))"
  proof (rule run_hooks_traced [where tbl = builtinHandlers and I = "\<lambda>c. x_Payload c \<noteq> None"])
    show "\<exists>c' n' err. handler c n = Returns (c', n', err) \<and> x_Payload c' \<noteq> None"
      if "builtinHandlers name = Some handler" and "x_Payload c \<noteq> None" for name handler c n
      using that by (rule builtinHandlers_return)
    show "x_Payload ctx \<noteq> None" by (rule i)
  qed
  then obtain ctx' mm' evs where
    r: "run_hooks builtinHandlers (hooks_at (hooks mm) event) event (Some (uuid_cnt mm)) ctx mm1 = Returns (ctx', mm')" and
    lg: "debugLog mm' = debugLog (foldl logDebug mm1 evs)" and
    md: "map d_Module evs =
           map h_ModuleID (filter (\<lambda>h. builtinHandlers (h_Handler h) \<noteq> None) (hooks_at (hooks mm) event))" and
    lv: "\<forall>ev\<in>set evs. d_Event ev = event \<and> d_TraceID ev = uuid_cnt mm \<and>
              (d_Level ev = ''debug'' \<or> d_Level ev = ''error'')"
    by (elim exE conjE)
  have same: "debugLog (foldl logDebug mm1 evs) = debugLog (foldl logDebug mm evs)"
    unfolding mm1_def by (rule debugLog_foldl_logDebug_cong) simp_all
  have e: "Emit builtinHandlers mm event pl = Returns (None, x_Payload ctx', mm')"
    using assms(1) False r by (simp add: Emit_def Let_def ctx_def mm1_def)
  have "Emit builtinHandlers mm event pl = Returns (None, x_Payload ctx', mm') \<and>
        debugLog mm' = debugLog (foldl logDebug mm evs) \<and>
        map d_Module evs =
          map h_ModuleID (filter (\<lambda>h. builtinHandlers (h_Handler h) \<noteq> None) (hooks_at (hooks mm) event)) \<and>
        (\<forall>ev\<in>set evs. d_Event ev = event \<and> (d_Level ev = ''debug'' \<or> d_Level ev = ''error''))"
    using e lg same md lv by simp
  then show ?thesis by (intro exI)
qed

subsection \<open>The order of the hooks of an event\<close>

lemma scan_hook_fields:
  "scan_hook kr = Some h \<Longrightarrow>
     k_priority (snd kr) = Some (h_Priority h) \<and> h_Event h = k_event (snd kr) \<and> h_ID h = fst kr"
  by (auto simp add: scan_hook_def split: option.splits)

lemma hooks_at_load_hooks:
  "hooks_at (load_hooks rows hs) ev =
     hooks_at hs ev @ filter (\<lambda>h. h_Event h = ev) (List.map_filter scan_hook rows)"
proof (induction rows arbitrary: hs)
  case Nil
  then show ?case by (simp add: List.map_filter_simps)
next
  case (Cons row rows)
  show ?case
  proof (cases "scan_hook row")
    case None
    then show ?thesis using Cons.IH [of hs] by (simp add: List.map_filter_simps)
  next
    case (Some h)
    define hs' where "hs' = hs(h_Event h \<mapsto> hooks_at hs (h_Event h) @ [h])"
    have step: "load_hooks (row # rows) hs = load_hooks rows hs'"
      using Some by (simp add: hs'_def)
    have "hooks_at (load_hooks (row # rows) hs) ev = hooks_at (load_hooks rows hs') ev"
      by (simp only: step)
    also have "\<dots> = hooks_at hs' ev @ filter (\<lambda>h. h_Event h = ev) (List.map_filter scan_hook rows)"
      by (rule Cons.IH)
    also have "hooks_at hs' ev = hooks_at hs ev @ filter (\<lambda>h. h_Event h = ev) [h]"
      by (simp add: hs'_def hooks_at_def)
    finally show ?thesis using Some by (simp add: List.map_filter_simps)
  qed
qed

lemma sorted_scanned_hooks:
  "sorted (map (\<lambda>kr. k_priority (snd kr)) rows) \<Longrightarrow>
     sorted (map h_Priority (List.map_filter scan_hook rows))"
proof (induction rows)
  case Nil
  then show ?case by (simp add: List.map_filter_simps)
next
  case (Cons row rows)
  have s: "sorted (map h_Priority (List.map_filter scan_hook rows))"
    using Cons by simp
  show ?case
  proof (cases "scan_hook row")
    case None
    then show ?thesis using s by (simp add: List.map_filter_simps)
  next
    case (Some h)
    have p: "k_priority (snd row) = Some (h_Priority h)" using scan_hook_fields [OF Some] by simp
    have le: "h_Priority h \<le> h_Priority h'" if "h' \<in> set (List.map_filter scan_hook rows)" for h'
    proof -
      from that obtain r where r: "r \<in> set rows" and sc: "scan_hook r = Some h'"
        by (auto simp add: List.map_filter_def)
      have "k_priority (snd row) \<le> k_priority (snd r)" using Cons.prems r by auto
      then show ?thesis using p scan_hook_fields [OF sc] by simp
    qed
    show ?thesis using Some s le by (auto simp add: List.map_filter_simps)
  qed
qed

text \<open>
  After a \<open>reload\<close> that succeeds, the hook list of every event holds the enabled hooks
  registered under exactly that event name, in ascending priority.  This is the list
  that \<open>Emit\<close> walks; hooks filed under \<open>*\<close> are in it only for the event named \<open>*\<close>.
\<close>

lemma reload_hooks_sorted:
  assumes "reload mm = (None, mm')"
  shows "sorted (map h_Priority (hooks_at (hooks mm') ev)) \<and>
         (\<forall>h\<in>set (hooks_at (hooks mm') ev). h_Event h = ev)"
proof -
  have hk: "hooks mm' = load_hooks (query_hooks (module_hooks (engine mm))) Map.empty"
    using assms driver_call_tables [of "engine mm"] driver_call_tables [of "snd (driver_call (engine mm))"]
    by (auto simp add: reload_def Let_def split: prod.splits option.splits)
  have srt: "sorted (map (\<lambda>kr. k_priority (snd kr)) (query_hooks (module_hooks (engine mm))))"
    by (simp add: query_hooks_def)
  have at: "hooks_at (hooks mm') ev =
      filter (\<lambda>h. h_Event h = ev) (List.map_filter scan_hook (query_hooks (module_hooks (engine mm))))"
    by (simp add: hk hooks_at_load_hooks) (simp add: hooks_at_def)
  show ?thesis
    using sorted_scanned_hooks [OF srt] by (simp add: at sorted_filter)
qed

end
